theory Spec2Isabelle
  imports Main
begin

section \<open>The schema\<close>

text \<open>
  The program is the SQL migration that creates the peer-learning schema: tables with
  their constraints, the row-level-security policies on them, and the trigger function
  \<open>award_completion_xp\<close> bound to \<open>AFTER UPDATE ON enrollments\<close>. The last migration
  drops and recreates everything, so its text is the schema in force; \<open>calculate_level\<close>
  of the first migration is never dropped and is modelled too.

  Six tables are modelled: \<open>users\<close>, \<open>courses\<close>, \<open>enrollments\<close>, \<open>reviews\<close>, \<open>certificates\<close>
  and \<open>mentor_requests\<close>. The others (badges, sessions, communities, projects) stand
  apart: no policy on these six reads them, and they carry no trigger.

  A \<open>uuid\<close> is an opaque identifier and a \<open>timestamptz\<close> an opaque instant. A column
  declared without \<open>NOT NULL\<close> holds an \<open>option\<close>: \<open>None\<close> is SQL's \<open>NULL\<close>. A text
  column with a \<open>CHECK (... IN (...))\<close> list is a datatype of exactly the listed values.
  Of each table, the columns kept are the key, every foreign key, and every column that
  a policy, a constraint or the trigger reads or writes; free-text and bookkeeping
  columns (names, descriptions, links, \<open>created_at\<close>) are left out.
\<close>

type_synonym uuid = nat
type_synonym timestamptz = nat

datatype role = Student | Mentor | Admin

datatype request_status = Pending | Approved | Rejected

record user =
  u_id :: uuid
  u_email :: string
  u_role :: "role option"
  u_year_of_study :: "int option"
  u_xp_points :: "int option"
  u_level_number :: "int option"

record course =
  c_id :: uuid
  c_mentor_id :: "uuid option"
  c_is_active :: "bool option"

record enrollment =
  e_id :: uuid
  e_student_id :: "uuid option"
  e_course_id :: "uuid option"
  e_completed_at :: "timestamptz option"
  e_is_completed :: "bool option"

record review =
  r_id :: uuid
  r_student_id :: "uuid option"
  r_course_id :: "uuid option"
  r_mentor_id :: "uuid option"
  r_rating :: int

record certificate =
  cert_id :: uuid
  cert_student_id :: "uuid option"
  cert_course_id :: "uuid option"
  cert_mentor_id :: "uuid option"
  cert_certificate_id :: string

record mentor_request =
  mr_id :: uuid
  mr_student_id :: "uuid option"
  mr_status :: "request_status option"
  mr_reviewed_by :: "uuid option"
  mr_reviewed_at :: "timestamptz option"

text \<open>The database: each table is the list of its rows, in insertion order.\<close>

record db =
  users :: "user list"
  courses :: "course list"
  enrollments :: "enrollment list"
  reviews :: "review list"
  certificates :: "certificate list"
  mentor_requests :: "mentor_request list"

text \<open>
  The column defaults of \<open>mentor_requests\<close>: a request inserted with only its key, its
  student and its message gets \<open>status = 'pending'\<close> and no reviewer.
\<close>

definition mentor_request_defaults :: "uuid \<Rightarrow> uuid option \<Rightarrow> mentor_request" where
  "mentor_request_defaults k sid =
     \<lparr>mr_id = k, mr_student_id = sid, mr_status = Some Pending,
      mr_reviewed_by = None, mr_reviewed_at = None\<rparr>"

section \<open>Errors and constraints\<close>

text \<open>
  A statement that raises aborts as a whole: it returns \<open>Inl\<close> of the error and no new
  state, so the database stays the one the statement started from.
\<close>

datatype error =
    PermissionDenied
  | CheckViolation
  | UniqueViolation
  | ForeignKeyViolation
  | NumericValueOutOfRange

text \<open>\<open>CHECK (rating >= 1 AND rating <= 5)\<close> on reviews.\<close>

definition check_ok :: "db \<Rightarrow> bool" where
  "check_ok s = list_all (\<lambda>r. 1 \<le> r_rating r \<and> r_rating r \<le> 5) (reviews s)"

text \<open>
  Primary keys and \<open>UNIQUE\<close> constraints. In \<open>UNIQUE(student_id, course_id)\<close> a row with
  a \<open>NULL\<close> in the pair never conflicts.
\<close>

definition enrollment_pairs :: "enrollment list \<Rightarrow> (uuid \<times> uuid) list" where
  "enrollment_pairs es =
     concat (map (\<lambda>e. case (e_student_id e, e_course_id e) of
                          (Some a, Some c) \<Rightarrow> [(a, c)] | _ \<Rightarrow> []) es)"

definition unique_ok :: "db \<Rightarrow> bool" where
  "unique_ok s =
     (distinct (map u_id (users s)) \<and> distinct (map u_email (users s)) \<and>
      distinct (map c_id (courses s)) \<and>
      distinct (map e_id (enrollments s)) \<and> distinct (enrollment_pairs (enrollments s)) \<and>
      distinct (map r_id (reviews s)) \<and>
      distinct (map cert_id (certificates s)) \<and>
      distinct (map cert_certificate_id (certificates s)) \<and>
      distinct (map mr_id (mentor_requests s)))"

text \<open>\<open>REFERENCES\<close>: a foreign key is \<open>NULL\<close> or the key of a row of the referenced table.\<close>

definition refers :: "uuid list \<Rightarrow> uuid option \<Rightarrow> bool" where
  "refers keys k = (case k of None \<Rightarrow> True | Some i \<Rightarrow> i \<in> set keys)"

definition fk_ok :: "db \<Rightarrow> bool" where
  "fk_ok s =
     (let us = map u_id (users s); cs = map c_id (courses s) in
      list_all (\<lambda>c. refers us (c_mentor_id c)) (courses s) \<and>
      list_all (\<lambda>e. refers us (e_student_id e) \<and> refers cs (e_course_id e)) (enrollments s) \<and>
      list_all (\<lambda>r. refers us (r_student_id r) \<and> refers cs (r_course_id r) \<and>
                     refers us (r_mentor_id r)) (reviews s) \<and>
      list_all (\<lambda>c. refers us (cert_student_id c) \<and> refers cs (cert_course_id c) \<and>
                     refers us (cert_mentor_id c)) (certificates s) \<and>
      list_all (\<lambda>m. refers us (mr_student_id m) \<and> refers us (mr_reviewed_by m))
               (mentor_requests s))"

text \<open>
  The constraints a statement's result must meet, in the order the store tests them:
  row checks, then unique indexes, then foreign keys.
\<close>

definition db_check :: "db \<Rightarrow> error option" where
  "db_check s =
     (if \<not> check_ok s then Some CheckViolation
      else if \<not> unique_ok s then Some UniqueViolation
      else if \<not> fk_ok s then Some ForeignKeyViolation
      else None)"

section \<open>Row-level security\<close>

text \<open>
  Every table has \<open>ENABLE ROW LEVEL SECURITY\<close> (not \<open>FORCE\<close>), and every policy is
  \<open>TO authenticated\<close>. A statement runs for a principal: the owner of the tables, whom
  row security exempts, or a session of role \<open>authenticated\<close> whose \<open>auth.uid()\<close> is the
  given identifier. No function of the schema is \<open>SECURITY DEFINER\<close>, so the statements
  inside a trigger function and the sub-selects inside a policy run for the principal of
  the statement that caused them, under the same policies.
\<close>

datatype principal = Owner | Authenticated uuid

text \<open>
  What the schema declares for one table: where its rows live, the disjunction of its
  permissive policies for each command (\<open>\<lambda>_ _ _. False\<close> where there is none: default
  deny), and its row trigger after update. \<open>tbl_update_check\<close> is the \<open>WITH CHECK\<close> of the
  update policies, which is their \<open>USING\<close> where none is written.

  \<open>gen_random_uuid()\<close> is the only nondeterminism. A draw is what the calls made for one
  row return: the uuid for a defaulted key, and the text of the uuid a function asks for.
\<close>

type_synonym draw = "uuid \<times> string"

record 'r table =
  tbl_rows :: "db \<Rightarrow> 'r list"
  tbl_put :: "'r list \<Rightarrow> db \<Rightarrow> db"
  tbl_select_using :: "uuid \<Rightarrow> db \<Rightarrow> 'r \<Rightarrow> bool"
  tbl_insert_check :: "uuid \<Rightarrow> db \<Rightarrow> 'r \<Rightarrow> bool"
  tbl_update_using :: "uuid \<Rightarrow> db \<Rightarrow> 'r \<Rightarrow> bool"
  tbl_update_check :: "uuid \<Rightarrow> db \<Rightarrow> 'r \<Rightarrow> bool"
  tbl_delete_using :: "uuid \<Rightarrow> db \<Rightarrow> 'r \<Rightarrow> bool"
  tbl_after_update :: "principal \<Rightarrow> draw \<Rightarrow> 'r \<Rightarrow> 'r \<Rightarrow> db \<Rightarrow> error + db"

text \<open>The rows a principal's query can see: those passing the \<open>SELECT\<close> policies.\<close>

definition visible :: "'r table \<Rightarrow> principal \<Rightarrow> db \<Rightarrow> 'r list" where
  "visible T p s =
     (case p of
        Owner \<Rightarrow> tbl_rows T s
      | Authenticated uid \<Rightarrow> filter (tbl_select_using T uid s) (tbl_rows T s))"

text \<open>\<open>SELECT * FROM T WHERE whr\<close>: rows the policies hide are left out; nothing is raised.\<close>

definition select_stmt :: "'r table \<Rightarrow> principal \<Rightarrow> ('r \<Rightarrow> bool) \<Rightarrow> db \<Rightarrow> 'r list" where
  "select_stmt T p whr s = filter whr (visible T p s)"

text \<open>
  \<open>INSERT INTO T\<close> of the given rows, without \<open>RETURNING\<close>: a new row that fails the
  \<open>WITH CHECK\<close> of the insert policies raises; then the constraints are tested.
\<close>

definition insert_allowed :: "'r table \<Rightarrow> principal \<Rightarrow> db \<Rightarrow> 'r \<Rightarrow> bool" where
  "insert_allowed T p s r =
     (case p of Owner \<Rightarrow> True | Authenticated uid \<Rightarrow> tbl_insert_check T uid s r)"

definition insert_stmt :: "'r table \<Rightarrow> principal \<Rightarrow> 'r list \<Rightarrow> db \<Rightarrow> error + db" where
  "insert_stmt T p new s =
     (if new = [] then Inr s
      else if \<not> list_all (insert_allowed T p s) new then Inl PermissionDenied
      else (let s' = tbl_put T (tbl_rows T s @ new) s in
            case db_check s' of Some e \<Rightarrow> Inl e | None \<Rightarrow> Inr s'))"

text \<open>
  \<open>UPDATE T SET ... WHERE whr\<close>. An existing row is a target only if it passes the
  \<open>USING\<close> of the update policies (a row that does not is skipped in silence), and each
  new row must pass their \<open>WITH CHECK\<close> (one that does not raises). When the statement
  refers to a column of the table, in its \<open>WHERE\<close> clause, on the right of an assignment
  or in \<open>RETURNING\<close>, it needs the right to read, and then the \<open>SELECT\<close> policies apply as
  well, to the existing rows as a filter and to the new rows as a check. \<open>reads\<close> says
  whether it does; a statement whose \<open>WHERE\<close> clause tests a column has \<open>reads = True\<close>.
  \<open>upd\<close> computes the new row from the old one and can itself raise.
\<close>

definition update_target :: "'r table \<Rightarrow> principal \<Rightarrow> bool \<Rightarrow> db \<Rightarrow> 'r \<Rightarrow> bool" where
  "update_target T p reads s r =
     (case p of
        Owner \<Rightarrow> True
      | Authenticated uid \<Rightarrow>
          (reads \<longrightarrow> tbl_select_using T uid s r) \<and> tbl_update_using T uid s r)"

definition update_allowed :: "'r table \<Rightarrow> principal \<Rightarrow> bool \<Rightarrow> db \<Rightarrow> 'r \<Rightarrow> bool" where
  "update_allowed T p reads s r =
     (case p of
        Owner \<Rightarrow> True
      | Authenticated uid \<Rightarrow>
          tbl_update_check T uid s r \<and> (reads \<longrightarrow> tbl_select_using T uid s r))"

fun rls_update ::
  "('r \<Rightarrow> bool) \<Rightarrow> ('r \<Rightarrow> bool) \<Rightarrow> ('r \<Rightarrow> error + 'r) \<Rightarrow> 'r list \<Rightarrow> error + ('r list \<times> ('r \<times> 'r) list)"
where
  "rls_update tgt chk upd [] = Inr ([], [])"
| "rls_update tgt chk upd (r # rs) =
     (if tgt r then
        (case upd r of
           Inl e \<Rightarrow> Inl e
         | Inr r' \<Rightarrow>
             if chk r' then
               (case rls_update tgt chk upd rs of
                  Inl e \<Rightarrow> Inl e
                | Inr (rs', ch) \<Rightarrow> Inr (r' # rs', (r, r') # ch))
             else Inl PermissionDenied)
      else
        (case rls_update tgt chk upd rs of
           Inl e \<Rightarrow> Inl e
         | Inr (rs', ch) \<Rightarrow> Inr (r # rs', ch)))"

text \<open>
  \<open>AFTER UPDATE ... FOR EACH ROW\<close>: once the rows are written, the trigger function runs
  for every updated row, in order, with the old and the new row; an error in any call
  aborts the statement.
\<close>

fun fire ::
  "(draw \<Rightarrow> 'r \<Rightarrow> 'r \<Rightarrow> db \<Rightarrow> error + db) \<Rightarrow> (nat \<Rightarrow> draw) \<Rightarrow> nat \<Rightarrow> ('r \<times> 'r) list \<Rightarrow> db \<Rightarrow> error + db"
where
  "fire trg gen k [] s = Inr s"
| "fire trg gen k ((old, new) # ch) s =
     (case trg (gen k) old new s of
        Inl e \<Rightarrow> Inl e
      | Inr s' \<Rightarrow> fire trg gen (Suc k) ch s')"

definition update_stmt ::
  "'r table \<Rightarrow> principal \<Rightarrow> (nat \<Rightarrow> draw) \<Rightarrow> bool \<Rightarrow> ('r \<Rightarrow> bool) \<Rightarrow> ('r \<Rightarrow> error + 'r) \<Rightarrow> db \<Rightarrow> error + db"
where
  "update_stmt T p gen reads whr upd s =
     (case rls_update (\<lambda>r. update_target T p reads s r \<and> whr r) (update_allowed T p reads s) upd
             (tbl_rows T s) of
        Inl e \<Rightarrow> Inl e
      | Inr (rs', ch) \<Rightarrow>
          if ch = [] then Inr s
          else (let s' = tbl_put T rs' s in
                case db_check s' of
                  Some e \<Rightarrow> Inl e
                | None \<Rightarrow> fire (tbl_after_update T p) gen 0 ch s'))"

text \<open>
  For stating what an update did: the row it writes in place of \<open>r\<close>, the rows it
  targets, and the table it leaves behind.
\<close>

definition newrow :: "('r \<Rightarrow> error + 'r) \<Rightarrow> 'r \<Rightarrow> 'r" where
  "newrow upd r = (case upd r of Inl e \<Rightarrow> r | Inr r' \<Rightarrow> r')"

definition update_targets ::
  "'r table \<Rightarrow> principal \<Rightarrow> bool \<Rightarrow> ('r \<Rightarrow> bool) \<Rightarrow> db \<Rightarrow> 'r list"
where
  "update_targets T p reads whr s =
     filter (\<lambda>r. update_target T p reads s r \<and> whr r) (tbl_rows T s)"

definition updated_rows ::
  "'r table \<Rightarrow> principal \<Rightarrow> bool \<Rightarrow> ('r \<Rightarrow> bool) \<Rightarrow> ('r \<Rightarrow> error + 'r) \<Rightarrow> db \<Rightarrow> 'r list"
where
  "updated_rows T p reads whr upd s =
     map (\<lambda>r. if update_target T p reads s r \<and> whr r then newrow upd r else r) (tbl_rows T s)"

text \<open>
  \<open>DELETE FROM T WHERE whr\<close> for an authenticated principal: only rows passing the
  \<open>USING\<close> of the delete policies, and the \<open>SELECT\<close> policies when the statement refers
  to a column, are removed. None of the six tables has a delete policy, so no row is
  ever removed this way and the referential actions (\<open>ON DELETE CASCADE\<close>) have nothing
  to act on.
\<close>

definition delete_stmt :: "'r table \<Rightarrow> uuid \<Rightarrow> bool \<Rightarrow> ('r \<Rightarrow> bool) \<Rightarrow> db \<Rightarrow> error + db" where
  "delete_stmt T uid reads whr s =
     (let gone = (\<lambda>r. (reads \<longrightarrow> tbl_select_using T uid s r) \<and> tbl_delete_using T uid s r \<and>
                       whr r) in
      if filter gone (tbl_rows T s) = [] then Inr s
      else (let s' = tbl_put T (filter (\<lambda>r. \<not> gone r) (tbl_rows T s)) s in
            case db_check s' of Some e \<Rightarrow> Inl e | None \<Rightarrow> Inr s'))"

text \<open>The state a request leaves behind: the new one if it commits, the old one if it raises.\<close>

definition after :: "db \<Rightarrow> error + db \<Rightarrow> db" where
  "after s res = (case res of Inl e \<Rightarrow> s | Inr s' \<Rightarrow> s')"

text \<open>A table without a trigger, a command without a policy, and \<open>USING (true)\<close>.\<close>

definition no_trigger :: "principal \<Rightarrow> draw \<Rightarrow> 'r \<Rightarrow> 'r \<Rightarrow> db \<Rightarrow> error + db" where
  "no_trigger p d old new s = Inr s"

definition no_policy :: "uuid \<Rightarrow> db \<Rightarrow> 'r \<Rightarrow> bool" where
  "no_policy uid s r = False"

definition anyone :: "uuid \<Rightarrow> db \<Rightarrow> 'r \<Rightarrow> bool" where
  "anyone uid s r = True"

section \<open>The policies, table by table\<close>

subsection \<open>users\<close>

text \<open>"Users can insert own profile": \<open>WITH CHECK (auth.uid() = id)\<close>.\<close>

definition users_can_insert_own_profile :: "uuid \<Rightarrow> db \<Rightarrow> user \<Rightarrow> bool" where
  "users_can_insert_own_profile uid s u = (uid = u_id u)"

text \<open>"Users can update own profile": \<open>USING (auth.uid() = id) WITH CHECK (auth.uid() = id)\<close>.\<close>

definition users_can_update_own_profile :: "uuid \<Rightarrow> db \<Rightarrow> user \<Rightarrow> bool" where
  "users_can_update_own_profile uid s u = (uid = u_id u)"

text \<open>"Users can read all profiles" is \<open>USING (true)\<close>.\<close>

definition users_tbl :: "user table" where
  "users_tbl =
     \<lparr>tbl_rows = users, tbl_put = (\<lambda>rs s. s\<lparr>users := rs\<rparr>),
      tbl_select_using = anyone,
      tbl_insert_check = users_can_insert_own_profile,
      tbl_update_using = users_can_update_own_profile,
      tbl_update_check = users_can_update_own_profile,
      tbl_delete_using = no_policy,
      tbl_after_update = no_trigger\<rparr>"

subsection \<open>courses\<close>

text \<open>"Anyone can read active courses": \<open>USING (is_active = true)\<close>.\<close>

definition anyone_can_read_active_courses :: "uuid \<Rightarrow> db \<Rightarrow> course \<Rightarrow> bool" where
  "anyone_can_read_active_courses uid s c = (c_is_active c = Some True)"

text \<open>
  "Mentors can create courses":
  \<open>WITH CHECK (EXISTS (SELECT 1 FROM users WHERE id = auth.uid() AND role IN ('mentor', 'admin')))\<close>.
\<close>

definition mentors_can_create_courses :: "uuid \<Rightarrow> db \<Rightarrow> course \<Rightarrow> bool" where
  "mentors_can_create_courses uid s c =
     list_ex (\<lambda>u. u_id u = uid \<and> (u_role u = Some Mentor \<or> u_role u = Some Admin))
       (visible users_tbl (Authenticated uid) s)"

text \<open>"Mentors can update own courses": \<open>USING (mentor_id = auth.uid())\<close>.\<close>

definition mentors_can_update_own_courses :: "uuid \<Rightarrow> db \<Rightarrow> course \<Rightarrow> bool" where
  "mentors_can_update_own_courses uid s c = (c_mentor_id c = Some uid)"

definition courses_tbl :: "course table" where
  "courses_tbl =
     \<lparr>tbl_rows = courses, tbl_put = (\<lambda>rs s. s\<lparr>courses := rs\<rparr>),
      tbl_select_using = anyone_can_read_active_courses,
      tbl_insert_check = mentors_can_create_courses,
      tbl_update_using = mentors_can_update_own_courses,
      tbl_update_check = mentors_can_update_own_courses,
      tbl_delete_using = no_policy,
      tbl_after_update = no_trigger\<rparr>"

subsection \<open>certificates\<close>

text \<open>
  "Students can read own certificates": \<open>USING (student_id = auth.uid())\<close>;
  "Mentors can read certificates for their courses": \<open>USING (mentor_id = auth.uid())\<close>.
  There is no insert, update or delete policy.
\<close>

definition students_can_read_own_certificates :: "uuid \<Rightarrow> db \<Rightarrow> certificate \<Rightarrow> bool" where
  "students_can_read_own_certificates uid s c = (cert_student_id c = Some uid)"

definition mentors_can_read_certificates :: "uuid \<Rightarrow> db \<Rightarrow> certificate \<Rightarrow> bool" where
  "mentors_can_read_certificates uid s c = (cert_mentor_id c = Some uid)"

definition certificates_tbl :: "certificate table" where
  "certificates_tbl =
     \<lparr>tbl_rows = certificates, tbl_put = (\<lambda>rs s. s\<lparr>certificates := rs\<rparr>),
      tbl_select_using =
        (\<lambda>uid s c. students_can_read_own_certificates uid s c \<or>
                   mentors_can_read_certificates uid s c),
      tbl_insert_check = no_policy,
      tbl_update_using = no_policy,
      tbl_update_check = no_policy,
      tbl_delete_using = no_policy,
      tbl_after_update = no_trigger\<rparr>"

section \<open>The completion trigger\<close>

text \<open>
  Integer division in SQL truncates toward zero; \<open>integer\<close> is 32 bits and arithmetic
  that leaves its range raises.
\<close>

definition sql_div :: "int \<Rightarrow> int \<Rightarrow> int" where
  "sql_div a b = sgn a * sgn b * (\<bar>a\<bar> div \<bar>b\<bar>)"

definition int4_range :: "int \<Rightarrow> bool" where
  "int4_range x = (- 2147483648 \<le> x \<and> x \<le> 2147483647)"

text \<open>
  \<open>calculate_level\<close> of the first migration: \<open>GREATEST(1, (xp_points / 100) + 1)\<close>.
\<close>

definition calculate_level :: "int \<Rightarrow> int" where
  "calculate_level xp_points = max 1 (sql_div xp_points 100 + 1)"

text \<open>
  The assignments of the trigger's \<open>UPDATE users\<close>:
  \<open>xp_points = xp_points + 50, level_number = FLOOR((xp_points + 50) / 100) + 1\<close>.
  Both right-hand sides read the old row; the quotient is already an integer, so
  \<open>FLOOR\<close> leaves it as it is; a \<open>NULL\<close> operand gives \<open>NULL\<close>.
\<close>

definition set_xp_and_level :: "user \<Rightarrow> error + user" where
  "set_xp_and_level u =
     (case u_xp_points u of
        None \<Rightarrow> Inr (u\<lparr>u_xp_points := None, u_level_number := None\<rparr>)
      | Some x \<Rightarrow>
          if int4_range (x + 50)
          then Inr (u\<lparr>u_xp_points := Some (x + 50),
                     u_level_number := Some (sql_div (x + 50) 100 + 1)\<rparr>)
          else Inl NumericValueOutOfRange)"

text \<open>\<open>UPPER\<close> on the characters a uuid's text can hold, and on every other letter.\<close>

definition upper_char :: "char \<Rightarrow> char" where
  "upper_char c =
     (case map_of (zip ''abcdefghijklmnopqrstuvwxyz'' ''ABCDEFGHIJKLMNOPQRSTUVWXYZ'') c of
        None \<Rightarrow> c
      | Some C \<Rightarrow> C)"

text \<open>\<open>'CERT-' || UPPER(SUBSTRING(gen_random_uuid()::text, 1, 8))\<close>.\<close>

definition certificate_number :: "string \<Rightarrow> string" where
  "certificate_number uuid_text = ''CERT-'' @ map upper_char (take 8 uuid_text)"

text \<open>
  The row the trigger's \<open>INSERT INTO certificates ... SELECT ... FROM courses c\<close> builds
  from one course row; its key is the defaulted \<open>gen_random_uuid()\<close>.
\<close>

definition certificate_for :: "draw \<Rightarrow> enrollment \<Rightarrow> course \<Rightarrow> certificate" where
  "certificate_for d new c =
     \<lparr>cert_id = fst d, cert_student_id = e_student_id new, cert_course_id = e_course_id new,
      cert_mentor_id = c_mentor_id c, cert_certificate_id = certificate_number (snd d)\<rparr>"

text \<open>
  \<open>award_completion_xp\<close>, the trigger function. \<open>NEW.is_completed = true AND
  OLD.is_completed = false\<close> is true only when neither flag is \<open>NULL\<close>. The update of
  \<open>users\<close> has \<open>WHERE id = NEW.student_id\<close> and the certificate rows come from
  \<open>courses c WHERE c.id = NEW.course_id\<close>; a comparison with \<open>NULL\<close> selects nothing.
  The function returns \<open>NEW\<close>, which an after-trigger ignores.
\<close>

definition award_completion_xp :: "principal \<Rightarrow> draw \<Rightarrow> enrollment \<Rightarrow> enrollment \<Rightarrow> db \<Rightarrow> error + db" where
  "award_completion_xp p d old new s =
     (if e_is_completed new = Some True \<and> e_is_completed old = Some False then
        (case update_stmt users_tbl p (\<lambda>_. d) True (\<lambda>u. Some (u_id u) = e_student_id new)
                set_xp_and_level s of
           Inl e \<Rightarrow> Inl e
         | Inr s1 \<Rightarrow>
             insert_stmt certificates_tbl p
               (map (certificate_for d new)
                  (select_stmt courses_tbl p (\<lambda>c. Some (c_id c) = e_course_id new) s1))
               s1)
      else Inr s)"

subsection \<open>enrollments\<close>

text \<open>"Students can enroll in courses": \<open>WITH CHECK (student_id = auth.uid())\<close>.\<close>

definition students_can_enroll_in_courses :: "uuid \<Rightarrow> db \<Rightarrow> enrollment \<Rightarrow> bool" where
  "students_can_enroll_in_courses uid s e = (e_student_id e = Some uid)"

text \<open>"Students can read own enrollments": \<open>USING (student_id = auth.uid())\<close>.\<close>

definition students_can_read_own_enrollments :: "uuid \<Rightarrow> db \<Rightarrow> enrollment \<Rightarrow> bool" where
  "students_can_read_own_enrollments uid s e = (e_student_id e = Some uid)"

text \<open>
  "Mentors can read enrollments for their courses" and "Mentors can update enrollments
  for their courses", both
  \<open>USING (EXISTS (SELECT 1 FROM courses WHERE id = course_id AND mentor_id = auth.uid()))\<close>.
\<close>

definition mentors_can_read_enrollments :: "uuid \<Rightarrow> db \<Rightarrow> enrollment \<Rightarrow> bool" where
  "mentors_can_read_enrollments uid s e =
     list_ex (\<lambda>c. Some (c_id c) = e_course_id e \<and> c_mentor_id c = Some uid)
       (visible courses_tbl (Authenticated uid) s)"

definition mentors_can_update_enrollments :: "uuid \<Rightarrow> db \<Rightarrow> enrollment \<Rightarrow> bool" where
  "mentors_can_update_enrollments uid s e =
     list_ex (\<lambda>c. Some (c_id c) = e_course_id e \<and> c_mentor_id c = Some uid)
       (visible courses_tbl (Authenticated uid) s)"

text \<open>\<open>enrollment_completion_trigger\<close> binds the function to updates of this table.\<close>

definition enrollments_tbl :: "enrollment table" where
  "enrollments_tbl =
     \<lparr>tbl_rows = enrollments, tbl_put = (\<lambda>rs s. s\<lparr>enrollments := rs\<rparr>),
      tbl_select_using =
        (\<lambda>uid s e. students_can_read_own_enrollments uid s e \<or>
                   mentors_can_read_enrollments uid s e),
      tbl_insert_check = students_can_enroll_in_courses,
      tbl_update_using = mentors_can_update_enrollments,
      tbl_update_check = mentors_can_update_enrollments,
      tbl_delete_using = no_policy,
      tbl_after_update = award_completion_xp\<rparr>"

text \<open>
  The completion update of one enrollment:
  \<open>UPDATE enrollments SET is_completed = true WHERE id = eid\<close>.
\<close>

definition complete_enrollment :: "principal \<Rightarrow> draw \<Rightarrow> uuid \<Rightarrow> db \<Rightarrow> error + db" where
  "complete_enrollment p d eid s =
     update_stmt enrollments_tbl p (\<lambda>_. d) True (\<lambda>e. e_id e = eid)
       (\<lambda>e. Inr (e\<lparr>e_is_completed := Some True\<rparr>)) s"

text \<open>
  Completion updates of one enrollment, run one after the other, each for its own
  principal and with its own draw; a request that raises leaves the database as it was.
\<close>

definition complete_repeatedly :: "(principal \<times> draw) list \<Rightarrow> uuid \<Rightarrow> db \<Rightarrow> db" where
  "complete_repeatedly reqs eid s =
     foldl (\<lambda>t (p, d). after t (complete_enrollment p d eid t)) s reqs"

subsection \<open>reviews\<close>

text \<open>
  "Anyone can read reviews" is \<open>USING (true)\<close>. "Students can create reviews for
  enrolled courses":
  \<open>WITH CHECK (student_id = auth.uid() AND EXISTS (SELECT 1 FROM enrollments
  WHERE student_id = auth.uid() AND course_id = reviews.course_id AND is_completed = true))\<close>.
\<close>

definition students_can_create_reviews :: "uuid \<Rightarrow> db \<Rightarrow> review \<Rightarrow> bool" where
  "students_can_create_reviews uid s r =
     (r_student_id r = Some uid \<and>
      list_ex (\<lambda>e. e_student_id e = Some uid \<and> e_course_id e \<noteq> None \<and>
                   e_course_id e = r_course_id r \<and> e_is_completed e = Some True)
        (visible enrollments_tbl (Authenticated uid) s))"

definition reviews_tbl :: "review table" where
  "reviews_tbl =
     \<lparr>tbl_rows = reviews, tbl_put = (\<lambda>rs s. s\<lparr>reviews := rs\<rparr>),
      tbl_select_using = anyone,
      tbl_insert_check = students_can_create_reviews,
      tbl_update_using = no_policy,
      tbl_update_check = no_policy,
      tbl_delete_using = no_policy,
      tbl_after_update = no_trigger\<rparr>"

subsection \<open>mentor_requests\<close>

text \<open>
  "Students can create mentor requests": \<open>WITH CHECK (student_id = auth.uid())\<close>;
  "Students can read own requests": \<open>USING (student_id = auth.uid())\<close>. There is no
  update and no delete policy.
\<close>

definition students_can_create_mentor_requests :: "uuid \<Rightarrow> db \<Rightarrow> mentor_request \<Rightarrow> bool" where
  "students_can_create_mentor_requests uid s m = (mr_student_id m = Some uid)"

definition students_can_read_own_requests :: "uuid \<Rightarrow> db \<Rightarrow> mentor_request \<Rightarrow> bool" where
  "students_can_read_own_requests uid s m = (mr_student_id m = Some uid)"

definition mentor_requests_tbl :: "mentor_request table" where
  "mentor_requests_tbl =
     \<lparr>tbl_rows = mentor_requests, tbl_put = (\<lambda>rs s. s\<lparr>mentor_requests := rs\<rparr>),
      tbl_select_using = students_can_read_own_requests,
      tbl_insert_check = students_can_create_mentor_requests,
      tbl_update_using = no_policy,
      tbl_update_check = no_policy,
      tbl_delete_using = no_policy,
      tbl_after_update = no_trigger\<rparr>"

section \<open>The guarded interface\<close>

text \<open>
  What a signed-in client can ask of these tables: an insert, an update or a delete on
  any of them, each run for \<open>Authenticated uid\<close>; an update or a delete says whether it
  refers to a column. A request that raises leaves the
  database as it was.
\<close>

datatype request =
    InsertUser user
  | UpdateUsers bool "user \<Rightarrow> bool" "user \<Rightarrow> error + user"
  | DeleteUsers bool "user \<Rightarrow> bool"
  | InsertCourse course
  | UpdateCourses bool "course \<Rightarrow> bool" "course \<Rightarrow> error + course"
  | DeleteCourses bool "course \<Rightarrow> bool"
  | InsertEnrollment enrollment
  | UpdateEnrollments "nat \<Rightarrow> draw" bool "enrollment \<Rightarrow> bool" "enrollment \<Rightarrow> error + enrollment"
  | DeleteEnrollments bool "enrollment \<Rightarrow> bool"
  | InsertReview review
  | UpdateReviews bool "review \<Rightarrow> bool" "review \<Rightarrow> error + review"
  | DeleteReviews bool "review \<Rightarrow> bool"
  | InsertCertificate certificate
  | UpdateCertificates bool "certificate \<Rightarrow> bool" "certificate \<Rightarrow> error + certificate"
  | DeleteCertificates bool "certificate \<Rightarrow> bool"
  | InsertMentorRequest mentor_request
  | UpdateMentorRequests bool "mentor_request \<Rightarrow> bool" "mentor_request \<Rightarrow> error + mentor_request"
  | DeleteMentorRequests bool "mentor_request \<Rightarrow> bool"

definition no_draw :: "nat \<Rightarrow> draw" where
  "no_draw k = (0, [])"

fun api_step :: "uuid \<Rightarrow> request \<Rightarrow> db \<Rightarrow> error + db" where
  "api_step uid (InsertUser u) s = insert_stmt users_tbl (Authenticated uid) [u] s"
| "api_step uid (UpdateUsers rd whr upd) s =
     update_stmt users_tbl (Authenticated uid) no_draw rd whr upd s"
| "api_step uid (DeleteUsers rd whr) s = delete_stmt users_tbl uid rd whr s"
| "api_step uid (InsertCourse c) s = insert_stmt courses_tbl (Authenticated uid) [c] s"
| "api_step uid (UpdateCourses rd whr upd) s =
     update_stmt courses_tbl (Authenticated uid) no_draw rd whr upd s"
| "api_step uid (DeleteCourses rd whr) s = delete_stmt courses_tbl uid rd whr s"
| "api_step uid (InsertEnrollment e) s = insert_stmt enrollments_tbl (Authenticated uid) [e] s"
| "api_step uid (UpdateEnrollments gen rd whr upd) s =
     update_stmt enrollments_tbl (Authenticated uid) gen rd whr upd s"
| "api_step uid (DeleteEnrollments rd whr) s = delete_stmt enrollments_tbl uid rd whr s"
| "api_step uid (InsertReview r) s = insert_stmt reviews_tbl (Authenticated uid) [r] s"
| "api_step uid (UpdateReviews rd whr upd) s =
     update_stmt reviews_tbl (Authenticated uid) no_draw rd whr upd s"
| "api_step uid (DeleteReviews rd whr) s = delete_stmt reviews_tbl uid rd whr s"
| "api_step uid (InsertCertificate c) s = insert_stmt certificates_tbl (Authenticated uid) [c] s"
| "api_step uid (UpdateCertificates rd whr upd) s =
     update_stmt certificates_tbl (Authenticated uid) no_draw rd whr upd s"
| "api_step uid (DeleteCertificates rd whr) s = delete_stmt certificates_tbl uid rd whr s"
| "api_step uid (InsertMentorRequest m) s = insert_stmt mentor_requests_tbl (Authenticated uid) [m] s"
| "api_step uid (UpdateMentorRequests rd whr upd) s =
     update_stmt mentor_requests_tbl (Authenticated uid) no_draw rd whr upd s"
| "api_step uid (DeleteMentorRequests rd whr) s = delete_stmt mentor_requests_tbl uid rd whr s"

fun api_run :: "(uuid \<times> request) list \<Rightarrow> db \<Rightarrow> db" where
  "api_run [] s = s"
| "api_run ((uid, req) # rest) s = api_run rest (after s (api_step uid req s))"

section \<open>What the specification asks for\<close>

text \<open>
  The level the specification assigns to an amount of experience:
  \<open>max(1, floor(xp_points / 100) + 1)\<close>; on \<open>int\<close>, \<open>div\<close> is the floor. A user row
  meets the level invariant when its \<open>level_number\<close> is that level of its \<open>xp_points\<close>.
\<close>

definition level_of_xp :: "int \<Rightarrow> int" where
  "level_of_xp x = max 1 (x div 100 + 1)"

definition level_invariant :: "user \<Rightarrow> bool" where
  "level_invariant u = (u_level_number u = map_option level_of_xp (u_xp_points u))"

text \<open>"An Enrollment for (S, C) exists with \<open>is_completed = true\<close>".\<close>

definition completed_enrollment :: "uuid \<Rightarrow> uuid \<Rightarrow> db \<Rightarrow> bool" where
  "completed_enrollment S C s =
     list_ex (\<lambda>e. e_student_id e = Some S \<and> e_course_id e = Some C \<and>
                   e_is_completed e = Some True) (enrollments s)"

section \<open>A completion that takes effect\<close>

text \<open>
  The database after the completion update of enrollment \<open>e\<close> has run all its steps:
  the flag of the row is set, the trigger's update has been applied to the users row of
  the student, and one certificate has been inserted for each \<open>courses\<close> row whose \<open>id\<close>
  is the enrollment's \<open>course_id\<close>.
\<close>

definition completion_effect :: "draw \<Rightarrow> enrollment \<Rightarrow> db \<Rightarrow> db" where
  "completion_effect d e s =
     s\<lparr>users := map (\<lambda>u. if Some (u_id u) = e_student_id e then newrow set_xp_and_level u else u)
                  (users s),
       enrollments := map (\<lambda>r. if e_id r = e_id e then r\<lparr>e_is_completed := Some True\<rparr> else r)
                        (enrollments s),
       certificates := certificates s @
         map (certificate_for d (e\<lparr>e_is_completed := Some True\<rparr>))
           (filter (\<lambda>c. Some (c_id c) = e_course_id e) (courses s))\<rparr>"

section \<open>A small database\<close>

text \<open>
  Two students, a mentor with two active courses, one open enrollment (Alice's) and one
  completed (Bob's). Every constraint of the schema holds in it.
\<close>

definition alice :: user where
  "alice = \<lparr>u_id = 1, u_email = ''alice@example.org'', u_role = Some Student,
            u_year_of_study = Some 1, u_xp_points = Some 80, u_level_number = Some 1\<rparr>"

definition mona :: user where
  "mona = \<lparr>u_id = 2, u_email = ''mona@example.org'', u_role = Some Mentor,
           u_year_of_study = Some 3, u_xp_points = Some 0, u_level_number = Some 1\<rparr>"

definition bob :: user where
  "bob = \<lparr>u_id = 3, u_email = ''bob@example.org'', u_role = Some Student,
          u_year_of_study = Some 1, u_xp_points = Some 0, u_level_number = Some 1\<rparr>"

definition course10 :: course where
  "course10 = \<lparr>c_id = 10, c_mentor_id = Some 2, c_is_active = Some True\<rparr>"

definition course11 :: course where
  "course11 = \<lparr>c_id = 11, c_mentor_id = Some 2, c_is_active = Some True\<rparr>"

definition enr_alice :: enrollment where
  "enr_alice = \<lparr>e_id = 100, e_student_id = Some 1, e_course_id = Some 10,
                e_completed_at = None, e_is_completed = Some False\<rparr>"

definition enr_bob :: enrollment where
  "enr_bob = \<lparr>e_id = 101, e_student_id = Some 3, e_course_id = Some 10,
              e_completed_at = None, e_is_completed = Some True\<rparr>"

definition ex_db :: db where
  "ex_db = \<lparr>users = [alice, mona, bob], courses = [course10, course11],
            enrollments = [enr_alice, enr_bob], reviews = [], certificates = [],
            mentor_requests = []\<rparr>"

definition ex_draw :: draw where
  "ex_draw = (500, ''3f2a9c1e-7b64-4d0a-9e55-0c1d2e3f4a5b'')"

text \<open>The certificate the trigger issues for Alice's enrollment from that draw.\<close>

definition cert_alice :: certificate where
  "cert_alice = \<lparr>cert_id = 500, cert_student_id = Some 1, cert_course_id = Some 10,
                 cert_mentor_id = Some 2, cert_certificate_id = ''CERT-3F2A9C1E''\<rparr>"

text \<open>
  A user row written with \<open>xp_points\<close> \<open>NULL\<close> (the column is nullable, and
  "Users can insert own profile" tests only the key), and the database holding it.
\<close>

definition carol :: user where
  "carol = \<lparr>u_id = 4, u_email = ''carol@example.org'', u_role = Some Student,
            u_year_of_study = Some 2, u_xp_points = None, u_level_number = Some 1\<rparr>"

definition ex_db_null_xp :: db where
  "ex_db_null_xp = ex_db\<lparr>users := [alice, mona, bob, carol]\<rparr>"

text \<open>\<open>UPDATE users SET xp_points = 500 WHERE id = 1\<close>.\<close>

definition is_user_1 :: "user \<Rightarrow> bool" where
  "is_user_1 u = (u_id u = 1)"

definition set_xp_500 :: "user \<Rightarrow> error + user" where
  "set_xp_500 u = Inr (u\<lparr>u_xp_points := Some 500\<rparr>)"

text \<open>An enrollment of Alice's that names no course, and the database holding it.\<close>

definition enr_no_course :: enrollment where
  "enr_no_course = \<lparr>e_id = 102, e_student_id = Some 1, e_course_id = None,
                    e_completed_at = None, e_is_completed = Some False\<rparr>"

definition ex_db_no_course :: db where
  "ex_db_no_course = ex_db\<lparr>enrollments := [enr_alice, enr_bob, enr_no_course]\<rparr>"

text \<open>A course row that names the student Alice as its mentor.\<close>

definition course_of_alice :: course where
  "course_of_alice = \<lparr>c_id = 12, c_mentor_id = Some 1, c_is_active = Some True\<rparr>"

text \<open>An enrollment row that arrives with \<open>completed_at\<close> already set.\<close>

definition enr_bob_dated :: enrollment where
  "enr_bob_dated = \<lparr>e_id = 103, e_student_id = Some 3, e_course_id = Some 11,
                    e_completed_at = Some 42, e_is_completed = Some False\<rparr>"

text \<open>A mentor request that arrives approved, and one that takes the defaults.\<close>

definition request_approved :: mentor_request where
  "request_approved = \<lparr>mr_id = 7, mr_student_id = Some 3, mr_status = Some Approved,
                       mr_reviewed_by = Some 3, mr_reviewed_at = Some 9\<rparr>"

definition is_request_8 :: "mentor_request \<Rightarrow> bool" where
  "is_request_8 m = (mr_id m = 8)"

definition approve :: "mentor_request \<Rightarrow> error + mentor_request" where
  "approve m = Inr (m\<lparr>mr_status := Some Approved, mr_reviewed_by := Some 2,
                       mr_reviewed_at := Some 9\<rparr>)"

text \<open>Reviews of course 10 and of course 11.\<close>

definition review_bob :: review where
  "review_bob = \<lparr>r_id = 200, r_student_id = Some 3, r_course_id = Some 10,
                 r_mentor_id = Some 2, r_rating = 5\<rparr>"

definition review_alice :: review where
  "review_alice = \<lparr>r_id = 201, r_student_id = Some 1, r_course_id = Some 11,
                   r_mentor_id = Some 2, r_rating = 4\<rparr>"

section \<open>What the statements do\<close>

lemma rls_update_Inr:
  "rls_update tgt chk upd rs = Inr (rs', ch) \<Longrightarrow>
     rs' = map (\<lambda>r. if tgt r then newrow upd r else r) rs \<and>
     ch = map (\<lambda>r. (r, newrow upd r)) (filter tgt rs) \<and>
     (\<forall>r\<in>set rs. tgt r \<longrightarrow> (\<exists>r'. upd r = Inr r' \<and> chk r'))"
proof (induction rs arbitrary: rs' ch)
  case Nil
  then show ?case by simp
next
  case (Cons r rs)
  show ?case
  proof (cases "tgt r")
    case True
    with Cons.prems obtain r' rs0 ch0 where
      u: "upd r = Inr r'" and c: "chk r'" and
      rec: "rls_update tgt chk upd rs = Inr (rs0, ch0)" and
      eq: "rs' = r' # rs0" "ch = (r, r') # ch0"
      by (auto split: sum.splits if_splits prod.splits)
    from Cons.IH [OF rec] True u c eq show ?thesis
      by (simp add: newrow_def)
  next
    case False
    with Cons.prems obtain rs0 ch0 where
      rec: "rls_update tgt chk upd rs = Inr (rs0, ch0)" and
      eq: "rs' = r # rs0" "ch = ch0"
      by (auto split: sum.splits prod.splits)
    from Cons.IH [OF rec] False eq show ?thesis by simp
  qed
qed

lemma rls_update_ok:
  "\<forall>r\<in>set rs. tgt r \<longrightarrow> (\<exists>r'. upd r = Inr r' \<and> chk r') \<Longrightarrow>
   rls_update tgt chk upd rs =
     Inr (map (\<lambda>r. if tgt r then newrow upd r else r) rs,
          map (\<lambda>r. (r, newrow upd r)) (filter tgt rs))"
  by (induction rs) (auto simp: newrow_def)

lemma rls_update_no_target:
  "\<forall>r\<in>set rs. \<not> tgt r \<Longrightarrow> rls_update tgt chk upd rs = Inr (rs, [])"
  by (induction rs) auto

lemma rls_update_denied:
  "\<exists>r\<in>set rs. tgt r \<Longrightarrow>
   \<forall>r\<in>set rs. tgt r \<longrightarrow> (\<exists>r'. upd r = Inr r' \<and> \<not> chk r') \<Longrightarrow>
   rls_update tgt chk upd rs = Inl PermissionDenied"
proof (induction rs)
  case Nil
  then show ?case by simp
next
  case (Cons r rs)
  show ?case
  proof (cases "tgt r")
    case True
    with Cons.prems(2) show ?thesis by auto
  next
    case False
    with Cons.prems have "\<exists>r\<in>set rs. tgt r" by auto
    with Cons False show ?thesis by auto
  qed
qed

lemma fire_invariant:
  assumes "fire trg gen k ch s = Inr s'" and "P s"
    and "\<And>d old new t t'. (old, new) \<in> set ch \<Longrightarrow> P t \<Longrightarrow> trg d old new t = Inr t' \<Longrightarrow> P t'"
  shows "P s'"
  using assms
proof (induction ch arbitrary: k s)
  case Nil
  then show ?case by simp
next
  case (Cons a ch)
  obtain old new where a: "a = (old, new)" by (cases a)
  from Cons.prems(1) a obtain t where
    t: "trg (gen k) old new s = Inr t" and rest: "fire trg gen (Suc k) ch t = Inr s'"
    by (auto split: sum.splits)
  have "P t" using Cons.prems(3) [of old new s "gen k" t] a t Cons.prems(2) by simp
  then show ?case
  proof (rule Cons.IH [OF rest])
    fix d old' new' u u'
    assume "(old', new') \<in> set ch" "P u" "trg d old' new' u = Inr u'"
    then show "P u'" using Cons.prems(3) [of old' new' u d u'] by simp
  qed
qed

lemma fire_no_trigger: "fire (no_trigger p) gen k ch s = Inr s"
  by (induction ch arbitrary: k) (auto simp: no_trigger_def)

lemma updated_rows_no_targets:
  "update_targets T p rd whr s = [] \<Longrightarrow> updated_rows T p rd whr upd s = tbl_rows T s"
  unfolding update_targets_def updated_rows_def
  by (rule map_idI) (auto simp: filter_empty_conv)

lemma update_stmt_Inr:
  assumes "update_stmt T p gen rd whr upd s = Inr s'"
  shows "(update_targets T p rd whr s = [] \<and> s' = s) \<or>
         (update_targets T p rd whr s \<noteq> [] \<and>
          (\<forall>r\<in>set (update_targets T p rd whr s). \<exists>r'. upd r = Inr r' \<and> update_allowed T p rd s r') \<and>
          db_check (tbl_put T (updated_rows T p rd whr upd s) s) = None \<and>
          fire (tbl_after_update T p) gen 0
            (map (\<lambda>r. (r, newrow upd r)) (update_targets T p rd whr s))
            (tbl_put T (updated_rows T p rd whr upd s) s) = Inr s')"
proof -
  let ?tgt = "\<lambda>r. update_target T p rd s r \<and> whr r"
  from assms obtain rs' ch where
    r: "rls_update ?tgt (update_allowed T p rd s) upd (tbl_rows T s) = Inr (rs', ch)"
    by (auto simp: update_stmt_def split: sum.splits)
  note c = rls_update_Inr [OF r]
  show ?thesis
  proof (cases "ch = []")
    case True
    with assms r c show ?thesis by (simp add: update_stmt_def update_targets_def)
  next
    case False
    with assms r c show ?thesis
      by (auto simp: update_stmt_def update_targets_def updated_rows_def Let_def
               split: option.splits)
  qed
qed

lemma update_stmt_no_targets:
  "update_targets T p rd whr s = [] \<Longrightarrow> update_stmt T p gen rd whr upd s = Inr s"
  by (simp add: update_stmt_def update_targets_def rls_update_no_target filter_empty_conv)

lemma insert_stmt_Inr:
  assumes "insert_stmt T p new s = Inr s'"
  shows "(new = [] \<and> s' = s) \<or>
         (new \<noteq> [] \<and> list_all (insert_allowed T p s) new \<and>
          s' = tbl_put T (tbl_rows T s @ new) s \<and> db_check s' = None)"
  using assms by (auto simp: insert_stmt_def Let_def split: if_splits option.splits)

lemma update_stmt_no_trigger:
  assumes "update_stmt T p gen rd whr upd s = Inr s'" and "tbl_after_update T = no_trigger"
  shows "s' = s \<or> s' = tbl_put T (updated_rows T p rd whr upd s) s"
  using update_stmt_Inr [OF assms(1)] assms(2) by (auto simp: fire_no_trigger)

lemma update_users_Inr:
  assumes "update_stmt users_tbl p gen rd whr upd s = Inr s'"
  shows "s' = s\<lparr>users := updated_rows users_tbl p rd whr upd s\<rparr>"
proof -
  from update_stmt_Inr [OF assms]
  consider "update_targets users_tbl p rd whr s = []" "s' = s"
    | "fire (tbl_after_update users_tbl p) gen 0
         (map (\<lambda>r. (r, newrow upd r)) (update_targets users_tbl p rd whr s))
         (tbl_put users_tbl (updated_rows users_tbl p rd whr upd s) s) = Inr s'"
    by blast
  then show ?thesis
  proof cases
    case 1
    from updated_rows_no_targets [OF 1(1)] have "updated_rows users_tbl p rd whr upd s = users s"
      by (simp add: users_tbl_def)
    with 1(2) show ?thesis by simp
  next
    case 2
    then show ?thesis by (simp add: users_tbl_def fire_no_trigger)
  qed
qed

lemma read_active_courses_eq:
  "anyone_can_read_active_courses uid s = (\<lambda>c. c_is_active c = Some True)"
  by (rule ext) (simp add: anyone_can_read_active_courses_def)

lemma visible_courses_frame:
  assumes "courses s' = courses s"
  shows "visible courses_tbl p s' = visible courses_tbl p s"
proof -
  have r: "tbl_rows courses_tbl s' = tbl_rows courses_tbl s"
    using assms by (simp add: courses_tbl_def)
  have u: "tbl_select_using courses_tbl uid s' = tbl_select_using courses_tbl uid s" for uid
    by (simp add: courses_tbl_def read_active_courses_eq)
  show ?thesis
    unfolding visible_def r by (cases p) (simp_all only: principal.case u)
qed

lemma select_courses_frame:
  "courses s' = courses s \<Longrightarrow> select_stmt courses_tbl p whr s' = select_stmt courses_tbl p whr s"
  using visible_courses_frame [of s' s p] by (simp add: select_stmt_def)

lemma insert_certificates_Inr:
  assumes "insert_stmt certificates_tbl p new s = Inr s'"
  shows "s' = s\<lparr>certificates := certificates s @ new\<rparr>"
  using insert_stmt_Inr [OF assms] by (auto simp: certificates_tbl_def)

lemma award_no_edge:
  "\<not> (e_is_completed new = Some True \<and> e_is_completed old = Some False) \<Longrightarrow>
   award_completion_xp p d old new s = Inr s"
  by (auto simp: award_completion_xp_def)

lemma award_Inr:
  assumes "award_completion_xp p d old new s = Inr s'"
    and "e_is_completed new = Some True" and "e_is_completed old = Some False"
  shows "s' = s\<lparr>users := updated_rows users_tbl p True (\<lambda>u. Some (u_id u) = e_student_id new)
                           set_xp_and_level s,
                 certificates := certificates s @ map (certificate_for d new)
                   (select_stmt courses_tbl p (\<lambda>c. Some (c_id c) = e_course_id new) s)\<rparr>"
proof -
  let ?whr = "\<lambda>u. Some (u_id u) = e_student_id new"
  from assms obtain s1 where
    u: "update_stmt users_tbl p (\<lambda>_. d) True ?whr set_xp_and_level s = Inr s1" and
    i: "insert_stmt certificates_tbl p
          (map (certificate_for d new)
             (select_stmt courses_tbl p (\<lambda>c. Some (c_id c) = e_course_id new) s1)) s1 = Inr s'"
    by (auto simp: award_completion_xp_def split: sum.splits)
  from update_users_Inr [OF u]
  have s1: "s1 = s\<lparr>users := updated_rows users_tbl p True ?whr set_xp_and_level s\<rparr>" .
  then have "courses s1 = courses s" by simp
  then have sel: "select_stmt courses_tbl p (\<lambda>c. Some (c_id c) = e_course_id new) s1 =
      select_stmt courses_tbl p (\<lambda>c. Some (c_id c) = e_course_id new) s"
    by (rule select_courses_frame)
  from insert_certificates_Inr [OF i] s1 sel show ?thesis by simp
qed

text \<open>What the trigger leaves alone.\<close>

lemma award_frame:
  assumes "award_completion_xp p d old new s = Inr s'"
  shows "enrollments s' = enrollments s \<and> courses s' = courses s \<and> reviews s' = reviews s \<and>
         mentor_requests s' = mentor_requests s"
proof (cases "e_is_completed new = Some True \<and> e_is_completed old = Some False")
  case True
  with award_Inr [OF assms] show ?thesis by simp
next
  case False
  with assms show ?thesis by (simp add: award_no_edge)
qed

lemma fire_award_frame:
  assumes "fire (award_completion_xp p) gen k ch s = Inr s'"
  shows "enrollments s' = enrollments s \<and> courses s' = courses s \<and> reviews s' = reviews s \<and>
         mentor_requests s' = mentor_requests s"
proof (rule fire_invariant [OF assms, where P = "\<lambda>t. enrollments t = enrollments s \<and>
    courses t = courses s \<and> reviews t = reviews s \<and> mentor_requests t = mentor_requests s"])
  show "enrollments s = enrollments s \<and> courses s = courses s \<and> reviews s = reviews s \<and>
    mentor_requests s = mentor_requests s" by simp
next
  fix d old new t t'
  assume "enrollments t = enrollments s \<and> courses t = courses s \<and> reviews t = reviews s \<and>
    mentor_requests t = mentor_requests s" and "award_completion_xp p d old new t = Inr t'"
  then show "enrollments t' = enrollments s \<and> courses t' = courses s \<and> reviews t' = reviews s \<and>
    mentor_requests t' = mentor_requests s"
    using award_frame [of p d old new t t'] by simp
qed

section \<open>Re-submitting a completion\<close>

lemma update_targets_subset:
  "r \<in> set (update_targets T p rd whr s) \<Longrightarrow> r \<in> set (tbl_rows T s) \<and> whr r \<and> update_target T p rd s r"
  by (simp add: update_targets_def)

lemma fire_award_no_edge:
  assumes "fire (award_completion_xp p) gen k ch s = Inr s'"
    and "\<forall>(old, new)\<in>set ch. \<not> (e_is_completed new = Some True \<and> e_is_completed old = Some False)"
  shows "s' = s"
proof (rule fire_invariant [OF assms(1), where P = "\<lambda>t. t = s"])
  show "s = s" by simp
next
  fix d old new t t'
  assume "(old, new) \<in> set ch" "t = s" "award_completion_xp p d old new t = Inr t'"
  with assms(2) show "t' = s" by (auto simp: award_no_edge)
qed

lemma update_enrollments_no_edge:
  assumes "\<forall>e\<in>set (enrollments s). whr e \<longrightarrow> e_is_completed e \<noteq> Some False"
    and "update_stmt enrollments_tbl p gen rd whr upd s = Inr s'"
  shows "s' = s \<or> s' = s\<lparr>enrollments := updated_rows enrollments_tbl p rd whr upd s\<rparr>"
proof -
  from update_stmt_Inr [OF assms(2)]
  consider "s' = s"
    | "fire (tbl_after_update enrollments_tbl p) gen 0
         (map (\<lambda>r. (r, newrow upd r)) (update_targets enrollments_tbl p rd whr s))
         (tbl_put enrollments_tbl (updated_rows enrollments_tbl p rd whr upd s) s) = Inr s'"
    by blast
  then show ?thesis
  proof cases
    case 1
    then show ?thesis by simp
  next
    case 2
    then have f: "fire (award_completion_xp p) gen 0
         (map (\<lambda>r. (r, newrow upd r)) (update_targets enrollments_tbl p rd whr s))
         (s\<lparr>enrollments := updated_rows enrollments_tbl p rd whr upd s\<rparr>) = Inr s'"
      by (simp add: enrollments_tbl_def)
    have "\<forall>(old, new)\<in>set (map (\<lambda>r. (r, newrow upd r)) (update_targets enrollments_tbl p rd whr s)).
        \<not> (e_is_completed new = Some True \<and> e_is_completed old = Some False)"
      using assms(1) update_targets_subset [of _ enrollments_tbl p rd whr s]
      by (auto simp: enrollments_tbl_def)
    from fire_award_no_edge [OF f this] show ?thesis by simp
  qed
qed

lemma complete_again_noop:
  assumes a: "\<forall>e\<in>set (enrollments s). e_id e = eid \<longrightarrow> e_is_completed e = Some True"
  shows "after s (complete_enrollment p d eid s) = s"
proof -
  let ?upd = "\<lambda>e. Inr (e\<lparr>e_is_completed := Some True\<rparr>) :: error + enrollment"
  have "updated_rows enrollments_tbl p True (\<lambda>e. e_id e = eid) ?upd s = tbl_rows enrollments_tbl s"
    unfolding updated_rows_def
  proof (rule map_idI)
    fix r assume "r \<in> set (tbl_rows enrollments_tbl s)"
    then have "r \<in> set (enrollments s)" by (simp add: enrollments_tbl_def)
    with a show "(if update_target enrollments_tbl p True s r \<and> e_id r = eid then newrow ?upd r else r) = r"
      by (auto simp: newrow_def)
  qed
  then have same: "updated_rows enrollments_tbl p True (\<lambda>e. e_id e = eid) ?upd s = enrollments s"
    by (simp add: enrollments_tbl_def)
  show ?thesis
  proof (cases "complete_enrollment p d eid s")
    case (Inl e)
    then show ?thesis by (simp add: after_def)
  next
    case (Inr s')
    have "\<forall>e\<in>set (enrollments s). e_id e = eid \<longrightarrow> e_is_completed e \<noteq> Some False"
      using a by auto
    from update_enrollments_no_edge [OF this Inr [unfolded complete_enrollment_def]] same
    have "s' = s" by auto
    with Inr show ?thesis by (simp add: after_def)
  qed
qed

text \<open>
  Claim C3. Re-submitting the completion update of an enrollment whose \<open>is_completed\<close>
  is already true changes nothing: the database after the request is the database
  before it, for every principal. More generally, an update of \<open>enrollments\<close> whose
  \<open>WHERE\<close> clause selects only rows already completed, whatever it assigns, leaves
  \<open>users\<close> (so every \<open>xp_points\<close> and \<open>level_number\<close>) and \<open>certificates\<close> as they
  were. The trigger function does anything at all only on the edge from
  \<open>OLD.is_completed = false\<close> to \<open>NEW.is_completed = true\<close>.
\<close>

theorem resubmitted_completion_is_noop:
  "((\<forall>e\<in>set (enrollments s). e_id e = eid \<longrightarrow> e_is_completed e = Some True) \<longrightarrow>
      after s (complete_enrollment p d eid s) = s) \<and>
   ((\<forall>e\<in>set (enrollments s). whr e \<longrightarrow> e_is_completed e = Some True) \<longrightarrow>
      users (after s (update_stmt enrollments_tbl p gen rd whr upd s)) = users s \<and>
      certificates (after s (update_stmt enrollments_tbl p gen rd whr upd s)) = certificates s) \<and>
   (award_completion_xp p d old new s \<noteq> Inr s \<longrightarrow>
      e_is_completed old = Some False \<and> e_is_completed new = Some True)"
proof (intro conjI impI)
  assume "\<forall>e\<in>set (enrollments s). e_id e = eid \<longrightarrow> e_is_completed e = Some True"
  then show "after s (complete_enrollment p d eid s) = s" by (rule complete_again_noop)
next
  assume a: "\<forall>e\<in>set (enrollments s). whr e \<longrightarrow> e_is_completed e = Some True"
  then have b: "\<forall>e\<in>set (enrollments s). whr e \<longrightarrow> e_is_completed e \<noteq> Some False" by auto
  have fr: "users (after s (update_stmt enrollments_tbl p gen rd whr upd s)) = users s \<and>
      certificates (after s (update_stmt enrollments_tbl p gen rd whr upd s)) = certificates s"
  proof (cases "update_stmt enrollments_tbl p gen rd whr upd s")
    case (Inl e)
    then show ?thesis by (simp add: after_def)
  next
    case (Inr s')
    from update_enrollments_no_edge [OF b Inr] have "users s' = users s \<and> certificates s' = certificates s"
      by auto
    with Inr show ?thesis by (simp add: after_def)
  qed
  from fr show "users (after s (update_stmt enrollments_tbl p gen rd whr upd s)) = users s" ..
  from fr show "certificates (after s (update_stmt enrollments_tbl p gen rd whr upd s)) = certificates s" ..
next
  assume "award_completion_xp p d old new s \<noteq> Inr s"
  then show "e_is_completed old = Some False" "e_is_completed new = Some True"
    using award_no_edge [of new old p d s] by auto
qed

theorem resubmitted_completion_is_noop_witness:
  "e_is_completed enr_bob = Some True \<and>
   after ex_db (complete_enrollment Owner ex_draw 101 ex_db) = ex_db \<and>
   users (after ex_db (update_stmt enrollments_tbl Owner (\<lambda>_. ex_draw) True (\<lambda>e. e_id e = 101)
            (\<lambda>e. Inr (e\<lparr>e_is_completed := Some True, e_completed_at := Some 7\<rparr>)) ex_db)) = users ex_db \<and>
   certificates (after ex_db (update_stmt enrollments_tbl Owner (\<lambda>_. ex_draw) True (\<lambda>e. e_id e = 101)
            (\<lambda>e. Inr (e\<lparr>e_is_completed := Some True, e_completed_at := Some 7\<rparr>)) ex_db)) = certificates ex_db \<and>
   award_completion_xp Owner ex_draw enr_alice (enr_alice\<lparr>e_is_completed := Some True\<rparr>) ex_db \<noteq> Inr ex_db \<and>
   e_is_completed enr_alice = Some False"
proof -
  have h1: "\<forall>e\<in>set (enrollments ex_db). e_id e = 101 \<longrightarrow> e_is_completed e = Some True"
    by code_simp
  have h2: "award_completion_xp Owner ex_draw enr_alice (enr_alice\<lparr>e_is_completed := Some True\<rparr>) ex_db \<noteq> Inr ex_db"
    by code_simp
  have h3: "e_is_completed enr_bob = Some True" by code_simp
  from h1 h2 h3
    resubmitted_completion_is_noop [where s = ex_db and eid = 101 and p = Owner and d = ex_draw
      and whr = "\<lambda>e. e_id e = 101" and gen = "\<lambda>_. ex_draw"
      and upd = "\<lambda>e. Inr (e\<lparr>e_is_completed := Some True, e_completed_at := Some 7\<rparr>)"
      and old = enr_alice and new = "enr_alice\<lparr>e_is_completed := Some True\<rparr>"]
  show ?thesis by blast
qed

section \<open>Denied reads and denied writes\<close>

lemma delete_stmt_no_targets:
  "\<forall>r\<in>set (tbl_rows T s). whr r \<longrightarrow>
      \<not> ((rd \<longrightarrow> tbl_select_using T uid s r) \<and> tbl_delete_using T uid s r) \<Longrightarrow>
   delete_stmt T uid rd whr s = Inr s"
  by (auto simp: delete_stmt_def Let_def filter_empty_conv)

lemma delete_no_policy:
  "tbl_delete_using T = no_policy \<Longrightarrow> delete_stmt T uid rd whr s = Inr s"
  by (rule delete_stmt_no_targets) (simp add: no_policy_def)


lemma update_stmt_denied:
  assumes "update_targets T p rd whr s \<noteq> []"
    and "\<forall>r\<in>set (update_targets T p rd whr s). \<exists>r'. upd r = Inr r' \<and> \<not> update_allowed T p rd s r'"
  shows "update_stmt T p gen rd whr upd s = Inl PermissionDenied"
proof -
  let ?tgt = "\<lambda>r. update_target T p rd s r \<and> whr r"
  from assms(1) have "\<exists>r\<in>set (tbl_rows T s). ?tgt r"
    by (auto simp: update_targets_def filter_empty_conv)
  moreover from assms(2) have "\<forall>r\<in>set (tbl_rows T s). ?tgt r \<longrightarrow>
      (\<exists>r'. upd r = Inr r' \<and> \<not> update_allowed T p rd s r')"
    by (simp add: update_targets_def)
  ultimately have "rls_update ?tgt (update_allowed T p rd s) upd (tbl_rows T s) = Inl PermissionDenied"
    by (rule rls_update_denied)
  then show ?thesis by (simp add: update_stmt_def)
qed












text \<open>
  The \<open>SELECT\<close> policies bear on an update only when it reads a column. Mona, the mentor
  of both courses, deactivates them: \<open>UPDATE courses SET is_active = false\<close> names no
  column on the right of an assignment and has no \<open>WHERE\<close>, and it commits; the same
  assignment \<open>WHERE id = 11\<close> reads \<open>id\<close>, the new row then has to pass "Anyone can read
  active courses", and the statement raises.
\<close>

lemma deactivating_courses:
  "update_stmt courses_tbl (Authenticated 2) no_draw False (\<lambda>c. True)
     (\<lambda>c. Inr (c\<lparr>c_is_active := Some False\<rparr>)) ex_db =
     Inr (ex_db\<lparr>courses := [course10\<lparr>c_is_active := Some False\<rparr>,
                            course11\<lparr>c_is_active := Some False\<rparr>]\<rparr>) \<and>
   update_stmt courses_tbl (Authenticated 2) no_draw True (\<lambda>c. c_id c = 11)
     (\<lambda>c. Inr (c\<lparr>c_is_active := Some False\<rparr>)) ex_db = Inl PermissionDenied"
  by code_simp


section \<open>Mentor requests\<close>

lemma insert_stmt_requests_other:
  assumes "insert_stmt T p new s = Inr s'"
    and "\<And>rs t. mentor_requests (tbl_put T rs t) = mentor_requests t"
  shows "mentor_requests s' = mentor_requests s"
  using insert_stmt_Inr [OF assms(1)] assms(2) by auto

lemma update_stmt_requests_other:
  assumes "update_stmt T p gen rd whr upd s = Inr s'" and "tbl_after_update T = no_trigger"
    and "\<And>rs t. mentor_requests (tbl_put T rs t) = mentor_requests t"
  shows "mentor_requests s' = mentor_requests s"
  using update_stmt_no_trigger [OF assms(1,2)] assms(3) by auto

lemma update_enrollments_requests:
  assumes "update_stmt enrollments_tbl p gen rd whr upd s = Inr s'"
  shows "mentor_requests s' = mentor_requests s"
proof -
  from update_stmt_Inr [OF assms]
  consider "s' = s"
    | "fire (tbl_after_update enrollments_tbl p) gen 0
         (map (\<lambda>r. (r, newrow upd r)) (update_targets enrollments_tbl p rd whr s))
         (tbl_put enrollments_tbl (updated_rows enrollments_tbl p rd whr upd s) s) = Inr s'"
    by blast
  then show ?thesis
  proof cases
    case 1
    then show ?thesis by simp
  next
    case 2
    then have "fire (award_completion_xp p) gen 0
         (map (\<lambda>r. (r, newrow upd r)) (update_targets enrollments_tbl p rd whr s))
         (s\<lparr>enrollments := updated_rows enrollments_tbl p rd whr upd s\<rparr>) = Inr s'"
      by (simp add: enrollments_tbl_def)
    from fire_award_frame [OF this] show ?thesis by simp
  qed
qed

lemma update_requests_noop:
  "update_stmt mentor_requests_tbl (Authenticated uid) gen rd whr upd s = Inr s"
proof (rule update_stmt_no_targets)
  show "update_targets mentor_requests_tbl (Authenticated uid) rd whr s = []"
    by (simp add: update_targets_def update_target_def mentor_requests_tbl_def no_policy_def)
qed

lemma delete_requests_noop: "delete_stmt mentor_requests_tbl uid rd whr s = Inr s"
  by (rule delete_no_policy) (simp add: mentor_requests_tbl_def)

lemma api_step_requests:
  assumes "api_step uid req s = Inr s'"
  shows "\<exists>new. mentor_requests s' = mentor_requests s @ new"
proof (cases req)
  case (InsertUser u)
  with assms have "mentor_requests s' = mentor_requests s"
    by (auto intro!: insert_stmt_requests_other [of users_tbl _ _ s s'] simp: users_tbl_def)
  then show ?thesis by simp
next
  case (UpdateUsers rd whr upd)
  with assms have "mentor_requests s' = mentor_requests s"
    by (auto intro!: update_stmt_requests_other [of users_tbl _ _ _ _ _ s s'] simp: users_tbl_def)
  then show ?thesis by simp
next
  case (DeleteUsers rd whr)
  with assms show ?thesis by (simp add: delete_no_policy users_tbl_def)
next
  case (InsertCourse c)
  with assms have "mentor_requests s' = mentor_requests s"
    by (auto intro!: insert_stmt_requests_other [of courses_tbl _ _ s s'] simp: courses_tbl_def)
  then show ?thesis by simp
next
  case (UpdateCourses rd whr upd)
  with assms have "mentor_requests s' = mentor_requests s"
    by (auto intro!: update_stmt_requests_other [of courses_tbl _ _ _ _ _ s s'] simp: courses_tbl_def)
  then show ?thesis by simp
next
  case (DeleteCourses rd whr)
  with assms show ?thesis by (simp add: delete_no_policy courses_tbl_def)
next
  case (InsertEnrollment e)
  with assms have "mentor_requests s' = mentor_requests s"
    by (auto intro!: insert_stmt_requests_other [of enrollments_tbl _ _ s s'] simp: enrollments_tbl_def)
  then show ?thesis by simp
next
  case (UpdateEnrollments gen rd whr upd)
  with assms have "mentor_requests s' = mentor_requests s"
    by (auto intro: update_enrollments_requests)
  then show ?thesis by simp
next
  case (DeleteEnrollments rd whr)
  with assms show ?thesis by (simp add: delete_no_policy enrollments_tbl_def)
next
  case (InsertReview r)
  with assms have "mentor_requests s' = mentor_requests s"
    by (auto intro!: insert_stmt_requests_other [of reviews_tbl _ _ s s'] simp: reviews_tbl_def)
  then show ?thesis by simp
next
  case (UpdateReviews rd whr upd)
  with assms have "mentor_requests s' = mentor_requests s"
    by (auto intro!: update_stmt_requests_other [of reviews_tbl _ _ _ _ _ s s'] simp: reviews_tbl_def)
  then show ?thesis by simp
next
  case (DeleteReviews rd whr)
  with assms show ?thesis by (simp add: delete_no_policy reviews_tbl_def)
next
  case (InsertCertificate c)
  with assms have "mentor_requests s' = mentor_requests s"
    by (auto intro!: insert_stmt_requests_other [of certificates_tbl _ _ s s'] simp: certificates_tbl_def)
  then show ?thesis by simp
next
  case (UpdateCertificates rd whr upd)
  with assms have "mentor_requests s' = mentor_requests s"
    by (auto intro!: update_stmt_requests_other [of certificates_tbl _ _ _ _ _ s s'] simp: certificates_tbl_def)
  then show ?thesis by simp
next
  case (DeleteCertificates rd whr)
  with assms show ?thesis by (simp add: delete_no_policy certificates_tbl_def)
next
  case (InsertMentorRequest m)
  with assms insert_stmt_Inr [of mentor_requests_tbl "Authenticated uid" "[m]" s s']
  show ?thesis by (auto simp: mentor_requests_tbl_def)
next
  case (UpdateMentorRequests rd whr upd)
  with assms show ?thesis by (simp add: update_requests_noop)
next
  case (DeleteMentorRequests rd whr)
  with assms show ?thesis by (simp add: delete_no_policy mentor_requests_tbl_def)
qed

lemma api_run_requests:
  "\<exists>new. mentor_requests (api_run ops s) = mentor_requests s @ new"
proof (induction ops arbitrary: s)
  case Nil
  then show ?case by simp
next
  case (Cons a ops)
  obtain uid req where a: "a = (uid, req)" by (cases a)
  let ?t = "after s (api_step uid req s)"
  have "\<exists>new. mentor_requests ?t = mentor_requests s @ new"
    using api_step_requests [of uid req s]
    by (cases "api_step uid req s") (auto simp: after_def)
  then obtain n1 where n1: "mentor_requests ?t = mentor_requests s @ n1" ..
  from Cons.IH [of ?t] obtain n2 where "mentor_requests (api_run ops ?t) = mentor_requests ?t @ n2" ..
  with n1 a show ?case by simp
qed

text \<open>
  Claim C10, as amended. No request of an authenticated principal changes or removes a
  row of \<open>mentor_requests\<close>: an update or a delete on the table succeeds on zero rows,
  and after any sequence of requests the table is the old table followed by the rows
  inserted since. So every row keeps the \<open>status\<close>, \<open>reviewed_by\<close> and \<open>reviewed_at\<close> it was
  inserted with; a row inserted with the column defaults is pending and unreviewed.
  The insert policy tests \<open>student_id\<close> only, so it is the inserted values, not
  \<open>'pending'\<close>, that persist.
\<close>

theorem mentor_requests_are_write_once:
  "api_step uid (UpdateMentorRequests rd whr upd) s = Inr s \<and>
   api_step uid (DeleteMentorRequests rd whr) s = Inr s \<and>
   (\<exists>new. mentor_requests (api_run ops s) = mentor_requests s @ new) \<and>
   mr_status (mentor_request_defaults k sid) = Some Pending \<and>
   mr_reviewed_by (mentor_request_defaults k sid) = None \<and>
   mr_reviewed_at (mentor_request_defaults k sid) = None"
  by (simp add: update_requests_noop delete_requests_noop api_run_requests
      mentor_request_defaults_def)

theorem mentor_requests_are_write_once_witness:
  "api_step 2 (UpdateMentorRequests True is_request_8 approve)
      (ex_db\<lparr>mentor_requests := [mentor_request_defaults 8 (Some 3)]\<rparr>) =
     Inr (ex_db\<lparr>mentor_requests := [mentor_request_defaults 8 (Some 3)]\<rparr>) \<and>
   api_step 3 (DeleteMentorRequests True is_request_8)
      (ex_db\<lparr>mentor_requests := [mentor_request_defaults 8 (Some 3)]\<rparr>) =
     Inr (ex_db\<lparr>mentor_requests := [mentor_request_defaults 8 (Some 3)]\<rparr>) \<and>
   mentor_requests
     (api_run [(2, UpdateMentorRequests True is_request_8 approve),
               (3, DeleteMentorRequests True is_request_8),
               (3, InsertMentorRequest request_approved)]
        (ex_db\<lparr>mentor_requests := [mentor_request_defaults 8 (Some 3)]\<rparr>)) =
     [mentor_request_defaults 8 (Some 3), request_approved] \<and>
   mr_status (mentor_request_defaults 8 (Some 3)) = Some Pending \<and>
   mr_reviewed_by (mentor_request_defaults 8 (Some 3)) = None \<and>
   mr_reviewed_at (mentor_request_defaults 8 (Some 3)) = None"
proof -
  have run: "mentor_requests
     (api_run [(2, UpdateMentorRequests True is_request_8 approve),
               (3, DeleteMentorRequests True is_request_8),
               (3, InsertMentorRequest request_approved)]
        (ex_db\<lparr>mentor_requests := [mentor_request_defaults 8 (Some 3)]\<rparr>)) =
     [mentor_request_defaults 8 (Some 3), request_approved]"
    by code_simp
  from run
    mentor_requests_are_write_once [where uid = 2 and whr = is_request_8 and upd = approve
      and s = "ex_db\<lparr>mentor_requests := [mentor_request_defaults 8 (Some 3)]\<rparr>" and k = 8
      and sid = "Some 3"]
    mentor_requests_are_write_once [where uid = 3 and whr = is_request_8 and upd = approve
      and s = "ex_db\<lparr>mentor_requests := [mentor_request_defaults 8 (Some 3)]\<rparr>" and k = 8
      and sid = "Some 3"]
  show ?thesis by blast
qed

text \<open>
  Claim C10 as it is written fails at creation: Bob inserts a request for himself that
  is already approved, with a reviewer and a review time. The insert policy passes it.
\<close>

theorem request_created_approved:
  "api_step 3 (InsertMentorRequest request_approved) ex_db =
     Inr (ex_db\<lparr>mentor_requests := [request_approved]\<rparr>) \<and>
   mr_status request_approved = Some Approved \<and>
   mr_reviewed_by request_approved = Some 3 \<and>
   mr_reviewed_at request_approved = Some 9"
  by code_simp

section \<open>Who may create a course, and what a review needs\<close>

lemma db_check_not_denied: "db_check s \<noteq> Some PermissionDenied"
  by (simp add: db_check_def)

lemma insert_one_denied_iff:
  "(insert_stmt T (Authenticated uid) [r] s = Inl PermissionDenied) = (\<not> tbl_insert_check T uid s r)"
  using db_check_not_denied [of "tbl_put T (tbl_rows T s @ [r]) s"]
  by (auto simp: insert_stmt_def insert_allowed_def Let_def split: option.splits)

lemma insert_one_ok:
  "tbl_insert_check T uid s r \<Longrightarrow> db_check (tbl_put T (tbl_rows T s @ [r]) s) = None \<Longrightarrow>
   insert_stmt T (Authenticated uid) [r] s = Inr (tbl_put T (tbl_rows T s @ [r]) s)"
  by (simp add: insert_stmt_def insert_allowed_def)

lemma visible_users: "visible users_tbl p s = users s"
  by (cases p) (simp_all add: visible_def users_tbl_def anyone_def)

lemma create_courses_iff:
  "mentors_can_create_courses uid s c =
     list_ex (\<lambda>u. u_id u = uid \<and> (u_role u = Some Mentor \<or> u_role u = Some Admin)) (users s)"
  by (simp add: mentors_can_create_courses_def visible_users)

text \<open>
  Claim C6, as amended. An authenticated principal's insert into \<open>courses\<close> passes the
  policy exactly when \<open>users\<close> holds a row for that principal with role mentor or admin;
  the policy does not look at the new row, so its \<open>mentor_id\<close> is free. After a
  successful update of \<open>courses\<close> by an authenticated principal, every row is either
  untouched or had, and still has, the principal as its \<open>mentor_id\<close>; the principal's
  role is not tested there.
\<close>

theorem course_write_policy:
  "(insert_stmt courses_tbl (Authenticated uid) [c] s \<noteq> Inl PermissionDenied) =
     list_ex (\<lambda>u. u_id u = uid \<and> (u_role u = Some Mentor \<or> u_role u = Some Admin)) (users s) \<and>
   (update_stmt courses_tbl (Authenticated uid) gen rd whr upd s = Inr s' \<longrightarrow>
      list_all2 (\<lambda>old new. new = old \<or> (c_mentor_id old = Some uid \<and> c_mentor_id new = Some uid))
        (courses s) (courses s'))"
proof (intro conjI impI)
  show "(insert_stmt courses_tbl (Authenticated uid) [c] s \<noteq> Inl PermissionDenied) =
     list_ex (\<lambda>u. u_id u = uid \<and> (u_role u = Some Mentor \<or> u_role u = Some Admin)) (users s)"
    using create_courses_iff [of uid s c] by (simp add: insert_one_denied_iff courses_tbl_def)
next
  assume u: "update_stmt courses_tbl (Authenticated uid) gen rd whr upd s = Inr s'"
  let ?R = "\<lambda>old new. new = old \<or> (c_mentor_id old = Some uid \<and> c_mentor_id new = Some uid)"
  let ?p = "Authenticated uid"
  from update_stmt_Inr [OF u]
  consider "s' = s"
    | "\<forall>r\<in>set (update_targets courses_tbl ?p rd whr s). \<exists>r'. upd r = Inr r' \<and> update_allowed courses_tbl ?p rd s r'"
      "fire (tbl_after_update courses_tbl ?p) gen 0
         (map (\<lambda>r. (r, newrow upd r)) (update_targets courses_tbl ?p rd whr s))
         (tbl_put courses_tbl (updated_rows courses_tbl ?p rd whr upd s) s) = Inr s'"
    by blast
  then show "list_all2 ?R (courses s) (courses s')"
  proof cases
    case 1
    then show ?thesis by (simp add: list_all2_same)
  next
    case 2
    have "tbl_after_update courses_tbl ?p = no_trigger ?p"
      and "tbl_put courses_tbl (updated_rows courses_tbl ?p rd whr upd s) s =
        s\<lparr>courses := updated_rows courses_tbl ?p rd whr upd s\<rparr>"
      by (simp_all add: courses_tbl_def)
    with 2(2) have "s' = s\<lparr>courses := updated_rows courses_tbl ?p rd whr upd s\<rparr>"
      by (simp add: fire_no_trigger)
    then have s': "courses s' = updated_rows courses_tbl ?p rd whr upd s" by simp
    have "list_all2 ?R (courses s)
        (map (\<lambda>r. if update_target courses_tbl ?p rd s r \<and> whr r then newrow upd r else r) (courses s))"
    proof (simp add: list_all2_map2 list_all2_same, intro ballI impI)
      fix r assume r: "r \<in> set (courses s)" and t: "update_target courses_tbl ?p rd s r \<and> whr r"
      then have "r \<in> set (update_targets courses_tbl ?p rd whr s)"
        by (simp add: update_targets_def courses_tbl_def)
      with 2(1) obtain r' where "upd r = Inr r'" "update_allowed courses_tbl ?p rd s r'" by blast
      with t show "newrow upd r = r \<or> c_mentor_id r = Some uid \<and> c_mentor_id (newrow upd r) = Some uid"
        by (simp add: newrow_def update_target_def update_allowed_def courses_tbl_def
            mentors_can_update_own_courses_def)
    qed
    with s' show ?thesis by (simp add: updated_rows_def courses_tbl_def)
  qed
qed

theorem course_write_policy_witness:
  "insert_stmt courses_tbl (Authenticated 1) [course_of_alice] ex_db = Inl PermissionDenied \<and>
   insert_stmt courses_tbl (Authenticated 2) [course_of_alice] ex_db \<noteq> Inl PermissionDenied \<and>
   update_stmt courses_tbl (Authenticated 2) no_draw True (\<lambda>c. c_id c = 11) (\<lambda>c. Inr (c\<lparr>c_id := 13\<rparr>)) ex_db =
     Inr (ex_db\<lparr>courses := [course10, course11\<lparr>c_id := 13\<rparr>]\<rparr>) \<and>
   list_all2 (\<lambda>old new. new = old \<or> (c_mentor_id old = Some 2 \<and> c_mentor_id new = Some 2))
     (courses ex_db) (courses (ex_db\<lparr>courses := [course10, course11\<lparr>c_id := 13\<rparr>]\<rparr>))"
proof -
  have h1: "\<not> list_ex (\<lambda>u. u_id u = 1 \<and> (u_role u = Some Mentor \<or> u_role u = Some Admin)) (users ex_db)"
    by code_simp
  have h2: "list_ex (\<lambda>u. u_id u = 2 \<and> (u_role u = Some Mentor \<or> u_role u = Some Admin)) (users ex_db)"
    by code_simp
  have h3: "update_stmt courses_tbl (Authenticated 2) no_draw True (\<lambda>c. c_id c = 11) (\<lambda>c. Inr (c\<lparr>c_id := 13\<rparr>)) ex_db =
     Inr (ex_db\<lparr>courses := [course10, course11\<lparr>c_id := 13\<rparr>]\<rparr>)"
    by code_simp
  from h1 h2 h3
    course_write_policy [where uid = 1 and c = course_of_alice and s = ex_db]
    course_write_policy [where uid = 2 and c = course_of_alice and s = ex_db and gen = no_draw
      and whr = "\<lambda>c. c_id c = 11" and upd = "\<lambda>c. Inr (c\<lparr>c_id := 13\<rparr>)"
      and s' = "ex_db\<lparr>courses := [course10, course11\<lparr>c_id := 13\<rparr>]\<rparr>"]
  show ?thesis by blast
qed

text \<open>
  Claim C6 as it is written fails on the \<open>mentor_id\<close> of a created course: the mentor
  Mona inserts a course whose \<open>mentor_id\<close> is the student Alice, and the insert succeeds.
\<close>

theorem course_created_for_a_student:
  "api_step 2 (InsertCourse course_of_alice) ex_db =
     Inr (ex_db\<lparr>courses := [course10, course11, course_of_alice]\<rparr>) \<and>
   c_mentor_id course_of_alice = Some (u_id alice) \<and>
   u_role alice = Some Student"
  by code_simp

lemma create_reviews_iff:
  assumes "r_student_id r = Some S" and "r_course_id r = Some C"
  shows "students_can_create_reviews uid s r = (uid = S \<and> completed_enrollment S C s)"
proof -
  let ?P = "\<lambda>e. e_student_id e = Some uid \<and> e_course_id e \<noteq> None \<and>
     e_course_id e = r_course_id r \<and> e_is_completed e = Some True"
  have "list_ex ?P (visible enrollments_tbl (Authenticated uid) s) = list_ex ?P (enrollments s)"
    unfolding visible_def principal.case
    by (auto simp: enrollments_tbl_def students_can_read_own_enrollments_def list_ex_iff)
  moreover have "list_ex ?P (enrollments s) = completed_enrollment uid C s"
    using assms(2) by (auto simp: completed_enrollment_def list_ex_iff)
  ultimately show ?thesis
    using assms(1) by (auto simp: students_can_create_reviews_def)
qed

text \<open>
  Claim C8. Take a review row whose \<open>student_id\<close> is S and whose \<open>course_id\<close> is C, inserted
  by an authenticated principal. The insert is refused with a permission error exactly
  when the principal is not S or no enrollment of S in C with \<open>is_completed = true\<close>
  exists; so a student with no enrollment in C is refused. And when the row itself
  meets the table's constraints (its key is new, its rating is within 1 to 5, its
  references resolve), the insert succeeds, storing the row, exactly when the
  principal is S and such an enrollment exists.
\<close>

theorem review_gating:
  assumes "r_student_id r = Some S" and "r_course_id r = Some C"
  shows "(insert_stmt reviews_tbl (Authenticated uid) [r] s = Inl PermissionDenied) =
           (\<not> (uid = S \<and> completed_enrollment S C s)) \<and>
         (db_check (s\<lparr>reviews := reviews s @ [r]\<rparr>) = None \<longrightarrow>
            (insert_stmt reviews_tbl (Authenticated uid) [r] s = Inr (s\<lparr>reviews := reviews s @ [r]\<rparr>)) =
              (uid = S \<and> completed_enrollment S C s))"
proof (intro conjI impI)
  have c: "tbl_insert_check reviews_tbl uid s r = (uid = S \<and> completed_enrollment S C s)"
    using create_reviews_iff [OF assms] by (simp add: reviews_tbl_def)
  show d: "(insert_stmt reviews_tbl (Authenticated uid) [r] s = Inl PermissionDenied) =
           (\<not> (uid = S \<and> completed_enrollment S C s))"
    by (simp add: insert_one_denied_iff c)
  assume ok: "db_check (s\<lparr>reviews := reviews s @ [r]\<rparr>) = None"
  have put: "tbl_put reviews_tbl (tbl_rows reviews_tbl s @ [r]) s = s\<lparr>reviews := reviews s @ [r]\<rparr>"
    by (simp add: reviews_tbl_def)
  show "(insert_stmt reviews_tbl (Authenticated uid) [r] s = Inr (s\<lparr>reviews := reviews s @ [r]\<rparr>)) =
              (uid = S \<and> completed_enrollment S C s)"
  proof (cases "uid = S \<and> completed_enrollment S C s")
    case True
    with c insert_one_ok [of reviews_tbl uid s r] ok put show ?thesis by simp
  next
    case False
    with d show ?thesis by simp
  qed
qed

theorem review_gating_witness:
  "insert_stmt reviews_tbl (Authenticated 3) [review_bob] ex_db =
     Inr (ex_db\<lparr>reviews := [review_bob]\<rparr>) \<and>
   completed_enrollment 3 10 ex_db \<and>
   insert_stmt reviews_tbl (Authenticated 1) [review_alice] ex_db = Inl PermissionDenied \<and>
   \<not> completed_enrollment 1 11 ex_db"
proof -
  have h1: "r_student_id review_bob = Some 3" and h2: "r_course_id review_bob = Some 10"
    and h3: "r_student_id review_alice = Some 1" and h4: "r_course_id review_alice = Some 11"
    by (simp_all add: review_bob_def review_alice_def)
  have h5: "db_check (ex_db\<lparr>reviews := reviews ex_db @ [review_bob]\<rparr>) = None" by code_simp
  have h6: "completed_enrollment 3 10 ex_db" by code_simp
  have h7: "\<not> completed_enrollment 1 11 ex_db" by code_simp
  have h8: "reviews ex_db @ [review_bob] = [review_bob]" by (simp add: ex_db_def)
  from review_gating [OF h1 h2, of 3 ex_db] review_gating [OF h3 h4, of 1 ex_db] h5 h6 h7 h8
  show ?thesis by simp
qed

section \<open>What an update of enrollments writes\<close>

lemma update_enrollments_split:
  assumes "update_stmt enrollments_tbl p gen rd whr upd s = Inr s'"
  shows "(update_targets enrollments_tbl p rd whr s = [] \<and> s' = s) \<or>
         (update_targets enrollments_tbl p rd whr s \<noteq> [] \<and>
          (\<forall>r\<in>set (update_targets enrollments_tbl p rd whr s).
              \<exists>r'. upd r = Inr r' \<and> update_allowed enrollments_tbl p rd s r') \<and>
          fire (award_completion_xp p) gen 0
            (map (\<lambda>r. (r, newrow upd r)) (update_targets enrollments_tbl p rd whr s))
            (s\<lparr>enrollments := updated_rows enrollments_tbl p rd whr upd s\<rparr>) = Inr s')"
proof -
  have "tbl_after_update enrollments_tbl p = award_completion_xp p"
    and "tbl_put enrollments_tbl (updated_rows enrollments_tbl p rd whr upd s) s =
      s\<lparr>enrollments := updated_rows enrollments_tbl p rd whr upd s\<rparr>"
    by (simp_all add: enrollments_tbl_def)
  with update_stmt_Inr [OF assms] show ?thesis by auto
qed

lemma update_enrollments_rows:
  assumes "update_stmt enrollments_tbl p gen rd whr upd s = Inr s'"
  shows "enrollments s' = updated_rows enrollments_tbl p rd whr upd s"
proof -
  from update_enrollments_split [OF assms]
  consider "update_targets enrollments_tbl p rd whr s = []" "s' = s"
    | "fire (award_completion_xp p) gen 0
            (map (\<lambda>r. (r, newrow upd r)) (update_targets enrollments_tbl p rd whr s))
            (s\<lparr>enrollments := updated_rows enrollments_tbl p rd whr upd s\<rparr>) = Inr s'"
    by blast
  then show ?thesis
  proof cases
    case 1
    from updated_rows_no_targets [OF 1(1), of upd] 1(2) show ?thesis
      by (simp add: enrollments_tbl_def)
  next
    case 2
    from fire_award_frame [OF 2] show ?thesis by simp
  qed
qed

text \<open>
  Claim C7, as amended. \<open>completed_at\<close> holds what the writing statement put there and
  nothing else sets it. An insert that succeeds stores the row as given, whatever its
  \<open>completed_at\<close> and \<open>is_completed\<close>. After an update of \<open>enrollments\<close> that succeeds, each
  targeted row is the row the statement's assignments computed and every other row is
  unchanged: the trigger writes nothing to \<open>enrollments\<close>. So an update that does not
  assign \<open>completed_at\<close>, the completion update among them, leaves every \<open>completed_at\<close> as
  it was.
\<close>

theorem completed_at_is_what_was_written:
  "(insert_stmt enrollments_tbl p [e] s = Inr s1 \<longrightarrow> enrollments s1 = enrollments s @ [e]) \<and>
   (update_stmt enrollments_tbl p gen rd whr upd s = Inr s2 \<longrightarrow>
      enrollments s2 =
        map (\<lambda>r. if update_target enrollments_tbl p rd s r \<and> whr r then newrow upd r else r)
          (enrollments s)) \<and>
   (update_stmt enrollments_tbl p gen rd whr upd s = Inr s2 \<and>
    (\<forall>r r'. upd r = Inr r' \<longrightarrow> e_completed_at r' = e_completed_at r) \<longrightarrow>
      map e_completed_at (enrollments s2) = map e_completed_at (enrollments s)) \<and>
   (complete_enrollment p d eid s = Inr s3 \<longrightarrow>
      map e_completed_at (enrollments s3) = map e_completed_at (enrollments s))"
proof -
  have keep: "map e_completed_at (enrollments t) = map e_completed_at (enrollments s)"
    if u: "update_stmt enrollments_tbl p g b w f s = Inr t"
      and f: "\<forall>r r'. f r = Inr r' \<longrightarrow> e_completed_at r' = e_completed_at r"
    for g b w f t
  proof -
    have "e_completed_at (newrow f r) = e_completed_at r" for r
      using f by (cases "f r") (simp_all add: newrow_def)
    then show ?thesis
      using update_enrollments_rows [OF u]
      by (simp add: updated_rows_def enrollments_tbl_def cong: if_cong)
  qed
  show ?thesis
  proof (intro conjI impI)
    assume "insert_stmt enrollments_tbl p [e] s = Inr s1"
    from insert_stmt_Inr [OF this] show "enrollments s1 = enrollments s @ [e]"
      by (simp add: enrollments_tbl_def)
  next
    assume "update_stmt enrollments_tbl p gen rd whr upd s = Inr s2"
    from update_enrollments_rows [OF this]
    show "enrollments s2 =
        map (\<lambda>r. if update_target enrollments_tbl p rd s r \<and> whr r then newrow upd r else r)
          (enrollments s)"
      by (simp add: updated_rows_def enrollments_tbl_def)
  next
    assume "update_stmt enrollments_tbl p gen rd whr upd s = Inr s2 \<and>
      (\<forall>r r'. upd r = Inr r' \<longrightarrow> e_completed_at r' = e_completed_at r)"
    then show "map e_completed_at (enrollments s2) = map e_completed_at (enrollments s)"
      using keep by blast
  next
    assume "complete_enrollment p d eid s = Inr s3"
    then show "map e_completed_at (enrollments s3) = map e_completed_at (enrollments s)"
      unfolding complete_enrollment_def by (rule keep) simp
  qed
qed

theorem completed_at_is_what_was_written_witness:
  "insert_stmt enrollments_tbl (Authenticated 2) [enr_bob_dated\<lparr>e_student_id := Some 2\<rparr>] ex_db =
     Inr (ex_db\<lparr>enrollments := [enr_alice, enr_bob, enr_bob_dated\<lparr>e_student_id := Some 2\<rparr>]\<rparr>) \<and>
   enrollments (ex_db\<lparr>enrollments := [enr_alice, enr_bob, enr_bob_dated\<lparr>e_student_id := Some 2\<rparr>]\<rparr>) =
     enrollments ex_db @ [enr_bob_dated\<lparr>e_student_id := Some 2\<rparr>] \<and>
   update_stmt enrollments_tbl (Authenticated 2) (\<lambda>_. ex_draw) True (\<lambda>e. e_id e = 100)
       (\<lambda>e. Inr (e\<lparr>e_is_completed := None\<rparr>)) ex_db =
     Inr (ex_db\<lparr>enrollments := [enr_alice\<lparr>e_is_completed := None\<rparr>, enr_bob]\<rparr>) \<and>
   map e_completed_at (enrollments (ex_db\<lparr>enrollments := [enr_alice\<lparr>e_is_completed := None\<rparr>, enr_bob]\<rparr>)) =
     map e_completed_at (enrollments ex_db) \<and>
   complete_enrollment (Authenticated 2) ex_draw 101 ex_db = Inr ex_db"
proof -
  have h1: "insert_stmt enrollments_tbl (Authenticated 2) [enr_bob_dated\<lparr>e_student_id := Some 2\<rparr>] ex_db =
     Inr (ex_db\<lparr>enrollments := [enr_alice, enr_bob, enr_bob_dated\<lparr>e_student_id := Some 2\<rparr>]\<rparr>)"
    by code_simp
  have h3: "update_stmt enrollments_tbl (Authenticated 2) (\<lambda>_. ex_draw) True (\<lambda>e. e_id e = 100)
       (\<lambda>e. Inr (e\<lparr>e_is_completed := None\<rparr>)) ex_db =
     Inr (ex_db\<lparr>enrollments := [enr_alice\<lparr>e_is_completed := None\<rparr>, enr_bob]\<rparr>)"
    by code_simp
  have h4: "\<forall>r r'. (Inr (r\<lparr>e_is_completed := None\<rparr>) :: error + enrollment) = Inr r' \<longrightarrow>
      e_completed_at r' = e_completed_at r"
    by auto
  have h5: "complete_enrollment (Authenticated 2) ex_draw 101 ex_db = Inr ex_db"
    by code_simp
  note T = completed_at_is_what_was_written [where p = "Authenticated 2" and s = ex_db
      and e = "enr_bob_dated\<lparr>e_student_id := Some 2\<rparr>"
      and ?s1.0 = "ex_db\<lparr>enrollments := [enr_alice, enr_bob, enr_bob_dated\<lparr>e_student_id := Some 2\<rparr>]\<rparr>"
      and gen = "\<lambda>_. ex_draw" and whr = "\<lambda>e. e_id e = 100"
      and upd = "\<lambda>e. Inr (e\<lparr>e_is_completed := None\<rparr>)"
      and ?s2.0 = "ex_db\<lparr>enrollments := [enr_alice\<lparr>e_is_completed := None\<rparr>, enr_bob]\<rparr>"
      and d = ex_draw and eid = 101 and ?s3.0 = ex_db]
  from T h1 have c1: "enrollments (ex_db\<lparr>enrollments := [enr_alice, enr_bob, enr_bob_dated\<lparr>e_student_id := Some 2\<rparr>]\<rparr>) =
     enrollments ex_db @ [enr_bob_dated\<lparr>e_student_id := Some 2\<rparr>]" by blast
  from T h3 h4 have c3: "map e_completed_at (enrollments (ex_db\<lparr>enrollments := [enr_alice\<lparr>e_is_completed := None\<rparr>, enr_bob]\<rparr>)) =
     map e_completed_at (enrollments ex_db)"
    by blast
  from h1 c1 h3 c3 h5 show ?thesis by blast
qed

text \<open>
  Claim C7 as it is written fails in both directions. Bob inserts an enrollment of his
  own with \<open>completed_at\<close> set and \<open>is_completed\<close> false: the row is stored, dated with no
  transition behind it. And when the completion update flips Alice's enrollment from
  false to true, the row's \<open>completed_at\<close> is still \<open>NULL\<close>.
\<close>

theorem completed_at_without_transition:
  "api_step 3 (InsertEnrollment enr_bob_dated) ex_db =
     Inr (ex_db\<lparr>enrollments := [enr_alice, enr_bob, enr_bob_dated]\<rparr>) \<and>
   e_completed_at enr_bob_dated = Some 42 \<and>
   e_is_completed enr_bob_dated = Some False \<and>
   enrollments (after ex_db (complete_enrollment Owner ex_draw 100 ex_db)) =
     [enr_alice\<lparr>e_is_completed := Some True\<rparr>, enr_bob] \<and>
   e_is_completed enr_alice = Some False \<and>
   e_completed_at (enr_alice\<lparr>e_is_completed := Some True\<rparr>) = None"
  by code_simp

section \<open>Levels\<close>

lemma sql_div_nonneg: "0 \<le> a \<Longrightarrow> sql_div a 100 = a div 100"
  by (cases "a = 0") (simp_all add: sql_div_def)

lemma sql_div_neg: "a < 0 \<Longrightarrow> sql_div a 100 \<le> 0"
proof -
  assume "a < 0"
  then have "sql_div a 100 = - (\<bar>a\<bar> div 100)" by (simp add: sql_div_def)
  moreover have "0 \<le> \<bar>a\<bar> div 100" by simp
  ultimately show ?thesis by linarith
qed

text \<open>
  The first migration's \<open>calculate_level\<close> is the specification's level for every
  integer, negative ones included: it divides with truncation where the specification
  takes the floor, and the lower bound of 1 hides the difference.
\<close>

theorem calculate_level_is_level_of_xp: "calculate_level x = level_of_xp x"
proof (cases "0 \<le> x")
  case True
  then show ?thesis by (simp add: calculate_level_def level_of_xp_def sql_div_nonneg)
next
  case False
  then have "sql_div x 100 \<le> 0" and "x div 100 < 0" by (simp_all add: sql_div_neg)
  then show ?thesis by (simp add: calculate_level_def level_of_xp_def)
qed

theorem calculate_level_is_level_of_xp_witness:
  "calculate_level (- 250) = 1 \<and> level_of_xp (- 250) = 1 \<and>
   calculate_level 130 = 2 \<and> level_of_xp 130 = 2"
  using calculate_level_is_level_of_xp [of "- 250"] calculate_level_is_level_of_xp [of 130]
  by (simp add: level_of_xp_def)

lemma set_xp_and_level_invariant:
  assumes "set_xp_and_level u = Inr u'" and "u_xp_points u' = Some x" and "0 \<le> x"
  shows "level_invariant u'"
proof (cases "u_xp_points u")
  case None
  with assms(1,2) show ?thesis by (auto simp: set_xp_and_level_def)
next
  case (Some y)
  with assms(1) have u': "u' = u\<lparr>u_xp_points := Some (y + 50),
      u_level_number := Some (sql_div (y + 50) 100 + 1)\<rparr>"
    by (auto simp: set_xp_and_level_def split: if_splits)
  with assms(2,3) have nn: "0 \<le> y + 50" by simp
  then have "0 \<le> (y + 50) div 100" by simp
  with nn u' show ?thesis
    by (simp add: level_invariant_def level_of_xp_def sql_div_nonneg)
qed

lemma award_level_invariant:
  assumes "award_completion_xp p d old new t = Inr t'"
    and "\<forall>u\<in>set (users t). (\<exists>x. u_xp_points u = Some x \<and> 0 \<le> x) \<longrightarrow> level_invariant u"
  shows "\<forall>u\<in>set (users t'). (\<exists>x. u_xp_points u = Some x \<and> 0 \<le> x) \<longrightarrow> level_invariant u"
proof (cases "e_is_completed new = Some True \<and> e_is_completed old = Some False")
  case False
  with assms show ?thesis by (simp add: award_no_edge)
next
  case True
  let ?whr = "\<lambda>u. Some (u_id u) = e_student_id new"
  from award_Inr [OF assms(1)] True
  have us: "users t' = updated_rows users_tbl p True ?whr set_xp_and_level t" by simp
  show ?thesis
  proof (intro ballI impI)
    fix u' assume "u' \<in> set (users t')" and nn: "\<exists>x. u_xp_points u' = Some x \<and> 0 \<le> x"
    with us obtain u where u: "u \<in> set (users t)"
      and u': "u' = (if update_target users_tbl p True t u \<and> ?whr u then newrow set_xp_and_level u else u)"
      by (auto simp: updated_rows_def users_tbl_def)
    show "level_invariant u'"
    proof (cases "set_xp_and_level u")
      case (Inl e)
      with u' have "u' = u" by (simp add: newrow_def)
      with u nn assms(2) show ?thesis by blast
    next
      case (Inr v)
      show ?thesis
      proof (cases "update_target users_tbl p True t u \<and> ?whr u")
        case True
        with u' Inr have "u' = v" by (simp add: newrow_def)
        with Inr nn show ?thesis using set_xp_and_level_invariant by blast
      next
        case False
        with u' have "u' = u" by simp
        with u nn assms(2) show ?thesis by blast
      qed
    qed
  qed
qed

text \<open>
  Claim C1, as amended. An update of \<open>enrollments\<close>, with the completion trigger it
  fires, keeps the level invariant on the users whose \<open>xp_points\<close> is neither \<open>NULL\<close> nor
  negative: if, before the statement, every such user row has
  \<open>level_number = max(1, floor(xp_points/100)+1)\<close>, then so has every such row after it.
  Nothing is asked of the rows whose \<open>xp_points\<close> is \<open>NULL\<close> or negative, before or after.
  The invariant is not one of all reachable states: the update policy on \<open>users\<close> lets
  a principal change the \<open>xp_points\<close> of the own row, and nothing recomputes
  \<open>level_number\<close>.
\<close>

theorem completion_keeps_level_invariant:
  assumes "update_stmt enrollments_tbl p gen rd whr upd s = Inr s'"
    and "\<forall>u\<in>set (users s). (\<exists>x. u_xp_points u = Some x \<and> 0 \<le> x) \<longrightarrow> level_invariant u"
  shows "\<forall>u\<in>set (users s'). (\<exists>x. u_xp_points u = Some x \<and> 0 \<le> x) \<longrightarrow> level_invariant u"
proof -
  let ?Q = "\<lambda>t. \<forall>u\<in>set (users t). (\<exists>x. u_xp_points u = Some x \<and> 0 \<le> x) \<longrightarrow> level_invariant u"
  from update_enrollments_split [OF assms(1)]
  consider "s' = s"
    | "fire (award_completion_xp p) gen 0
            (map (\<lambda>r. (r, newrow upd r)) (update_targets enrollments_tbl p rd whr s))
            (s\<lparr>enrollments := updated_rows enrollments_tbl p rd whr upd s\<rparr>) = Inr s'"
    by blast
  then show ?thesis
  proof cases
    case 1
    with assms(2) show ?thesis by simp
  next
    case 2
    show ?thesis
    proof (rule fire_invariant [OF 2, where P = ?Q])
      show "?Q (s\<lparr>enrollments := updated_rows enrollments_tbl p rd whr upd s\<rparr>)"
        using assms(2) by simp
    next
      fix d old new t t'
      assume "?Q t" and "award_completion_xp p d old new t = Inr t'"
      then show "?Q t'" using award_level_invariant by blast
    qed
  qed
qed

theorem completion_keeps_level_invariant_witness:
  "update_stmt enrollments_tbl Owner (\<lambda>_. ex_draw) True (\<lambda>e. e_id e = 100)
       (\<lambda>e. Inr (e\<lparr>e_is_completed := Some True\<rparr>)) ex_db_null_xp =
     Inr (ex_db_null_xp
          \<lparr>users := [alice\<lparr>u_xp_points := Some 130, u_level_number := Some 2\<rparr>, mona, bob, carol],
            enrollments := [enr_alice\<lparr>e_is_completed := Some True\<rparr>, enr_bob],
            certificates := [cert_alice]\<rparr>) \<and>
   u_xp_points carol = None \<and> \<not> level_invariant carol \<and>
   list_all level_invariant [alice, mona, bob] \<and>
   level_invariant (alice\<lparr>u_xp_points := Some 130, u_level_number := Some 2\<rparr>)"
proof -
  let ?s' = "ex_db_null_xp
          \<lparr>users := [alice\<lparr>u_xp_points := Some 130, u_level_number := Some 2\<rparr>, mona, bob, carol],
            enrollments := [enr_alice\<lparr>e_is_completed := Some True\<rparr>, enr_bob],
            certificates := [cert_alice]\<rparr>"
  have h1: "update_stmt enrollments_tbl Owner (\<lambda>_. ex_draw) True (\<lambda>e. e_id e = 100)
       (\<lambda>e. Inr (e\<lparr>e_is_completed := Some True\<rparr>)) ex_db_null_xp = Inr ?s'"
    by code_simp
  have c: "u_xp_points carol = None \<and> \<not> level_invariant carol" by code_simp
  have l: "list_all level_invariant [alice, mona, bob]" by code_simp
  have us: "users ex_db_null_xp = [alice, mona, bob, carol]" by code_simp
  have h2: "\<forall>u\<in>set (users ex_db_null_xp).
      (\<exists>x. u_xp_points u = Some x \<and> 0 \<le> x) \<longrightarrow> level_invariant u"
    unfolding us using c l by simp
  have m: "alice\<lparr>u_xp_points := Some 130, u_level_number := Some 2\<rparr> \<in> set (users ?s')" by simp
  have nn: "\<exists>x. u_xp_points (alice\<lparr>u_xp_points := Some 130, u_level_number := Some 2\<rparr>) = Some x \<and> 0 \<le> x"
    by simp
  from completion_keeps_level_invariant [OF h1 h2] m nn
  have "level_invariant (alice\<lparr>u_xp_points := Some 130, u_level_number := Some 2\<rparr>)" by blast
  with h1 c l show ?thesis by blast
qed

text \<open>
  Claim C1 as it is written fails on a permitted operation: Alice, signed in, sets her
  own \<open>xp_points\<close> to 500. The update policy on \<open>users\<close> allows it, nothing recomputes
  \<open>level_number\<close>, and her row is left with 500 points at level 1.
\<close>

theorem own_profile_update_breaks_level:
  "api_step 1 (UpdateUsers True is_user_1 set_xp_500) ex_db =
     Inr (ex_db\<lparr>users := [alice\<lparr>u_xp_points := Some 500\<rparr>, mona, bob]\<rparr>) \<and>
   level_invariant alice \<and>
   \<not> level_invariant (alice\<lparr>u_xp_points := Some 500\<rparr>)"
  by code_simp

section \<open>The outcomes of a completion update\<close>

lemma distinct_key_eq:
  "distinct (map f xs) \<Longrightarrow> x \<in> set xs \<Longrightarrow> y \<in> set xs \<Longrightarrow> f x = f y \<Longrightarrow> x = y"
  by (meson distinct_map inj_onD)

lemma filter_by_key:
  assumes "distinct (map f xs)" and "x \<in> set xs"
  shows "filter (\<lambda>r. f r = f x) xs = [x]"
  using assms
proof (induction xs)
  case Nil
  then show ?case by simp
next
  case (Cons a xs)
  show ?case
  proof (cases "a = x")
    case True
    with Cons.prems(1) have "f x \<notin> f ` set xs" by simp
    then have "\<forall>r\<in>set xs. f r \<noteq> f x" by (metis imageI)
    then have "filter (\<lambda>r. f r = f x) xs = []" by (simp add: filter_empty_conv)
    with True show ?thesis by simp
  next
    case False
    with Cons.prems have "x \<in> set xs" and "f a \<noteq> f x" and "distinct (map f xs)" by auto
    with Cons.IH show ?thesis by simp
  qed
qed

lemma award_authenticated:
  assumes "award_completion_xp (Authenticated uid) d old new t = Inr t'"
    and "e_is_completed new = Some True" and "e_is_completed old = Some False"
  shows "select_stmt courses_tbl (Authenticated uid) (\<lambda>c. Some (c_id c) = e_course_id new) t = []"
proof -
  let ?p = "Authenticated uid"
  let ?whr = "\<lambda>u. Some (u_id u) = e_student_id new"
  let ?sel = "\<lambda>t. select_stmt courses_tbl ?p (\<lambda>c. Some (c_id c) = e_course_id new) t"
  from assms obtain t1 where
    u: "update_stmt users_tbl ?p (\<lambda>_. d) True ?whr set_xp_and_level t = Inr t1" and
    i: "insert_stmt certificates_tbl ?p (map (certificate_for d new) (?sel t1)) t1 = Inr t'"
    by (auto simp: award_completion_xp_def split: sum.splits)
  from update_users_Inr [OF u] have "courses t1 = courses t" by simp
  then have sel: "?sel t1 = ?sel t" by (rule select_courses_frame)
  have "\<not> list_all (insert_allowed certificates_tbl ?p t1) rows" if "rows \<noteq> []" for rows
    using that by (cases rows) (simp_all add: insert_allowed_def certificates_tbl_def no_policy_def)
  with insert_stmt_Inr [OF i] have "map (certificate_for d new) (?sel t1) = []" by blast
  with sel show ?thesis by simp
qed

lemma complete_enrollment_outcome:
  assumes dist: "distinct (map e_id (enrollments s))"
    and e: "e \<in> set (enrollments s)" and c: "e_is_completed e = Some False"
    and res: "complete_enrollment p d (e_id e) s = Inr s'"
  shows "s' = s \<or> (p = Owner \<and> s' = completion_effect d e s)"
proof -
  let ?upd = "\<lambda>r. Inr (r\<lparr>e_is_completed := Some True\<rparr>) :: error + enrollment"
  let ?whr = "\<lambda>r. e_id r = e_id e"
  let ?new = "e\<lparr>e_is_completed := Some True\<rparr>"
  let ?s1 = "s\<lparr>enrollments := updated_rows enrollments_tbl p True ?whr ?upd s\<rparr>"
  have nr: "newrow ?upd r = r\<lparr>e_is_completed := Some True\<rparr>" for r
    by (simp add: newrow_def)
  have tg: "update_targets enrollments_tbl p True ?whr s =
      filter (update_target enrollments_tbl p True s) (filter ?whr (enrollments s))"
    by (simp add: update_targets_def enrollments_tbl_def conj_commute)
  from filter_by_key [OF dist e] have one: "filter ?whr (enrollments s) = [e]" .
  from update_enrollments_split [OF res [unfolded complete_enrollment_def]]
  consider "s' = s"
    | "update_targets enrollments_tbl p True ?whr s \<noteq> []"
      "fire (award_completion_xp p) (\<lambda>_. d) 0
         (map (\<lambda>r. (r, newrow ?upd r)) (update_targets enrollments_tbl p True ?whr s)) ?s1 = Inr s'"
    by blast
  then show ?thesis
  proof cases
    case 1
    then show ?thesis by simp
  next
    case 2
    from 2(1) tg one have ut: "update_target enrollments_tbl p True s e"
      and tgs: "update_targets enrollments_tbl p True ?whr s = [e]"
      by (auto split: if_splits)
    from 2(2) tgs nr have aw: "award_completion_xp p d e ?new ?s1 = Inr s'"
      by (auto split: sum.splits)
    have rows: "updated_rows enrollments_tbl p True ?whr ?upd s =
        map (\<lambda>r. if e_id r = e_id e then r\<lparr>e_is_completed := Some True\<rparr> else r) (enrollments s)"
    proof -
      have "(if update_target enrollments_tbl p True s r \<and> e_id r = e_id e then newrow ?upd r else r) =
          (if e_id r = e_id e then r\<lparr>e_is_completed := Some True\<rparr> else r)"
        if "r \<in> set (enrollments s)" for r
      proof (cases "e_id r = e_id e")
        case True
        with dist e that have "r = e" using distinct_key_eq by metis
        with ut True show ?thesis by (simp add: nr)
      next
        case False
        then show ?thesis by simp
      qed
      then have "map (\<lambda>r. if update_target enrollments_tbl p True s r \<and> e_id r = e_id e
            then newrow ?upd r else r) (enrollments s) =
          map (\<lambda>r. if e_id r = e_id e then r\<lparr>e_is_completed := Some True\<rparr> else r) (enrollments s)"
        by (rule map_cong [OF refl])
      then show ?thesis by (simp add: updated_rows_def enrollments_tbl_def)
    qed
    show ?thesis
    proof (cases p)
      case Owner
      have us: "updated_rows users_tbl Owner True (\<lambda>u. Some (u_id u) = e_student_id ?new) set_xp_and_level ?s1 =
          map (\<lambda>u. if Some (u_id u) = e_student_id e then newrow set_xp_and_level u else u) (users s)"
        by (simp add: updated_rows_def update_target_def users_tbl_def)
      have cs: "select_stmt courses_tbl Owner (\<lambda>c. Some (c_id c) = e_course_id ?new) ?s1 =
          filter (\<lambda>c. Some (c_id c) = e_course_id e) (courses s)"
        by (simp add: select_stmt_def visible_def courses_tbl_def)
      from award_Inr [OF aw [unfolded Owner]] c rows us cs
      have "s' = completion_effect d e s"
        unfolding Owner by (simp add: completion_effect_def)
      with Owner show ?thesis by simp
    next
      case (Authenticated uid)
      from ut Authenticated have "mentors_can_update_enrollments uid s e"
        by (simp add: update_target_def enrollments_tbl_def)
      then obtain k where k: "k \<in> set (visible courses_tbl (Authenticated uid) s)"
        and ke: "Some (c_id k) = e_course_id e"
        by (auto simp: mentors_can_update_enrollments_def list_ex_iff)
      have "courses ?s1 = courses s" by simp
      from visible_courses_frame [OF this, of "Authenticated uid"] k
      have "k \<in> set (visible courses_tbl (Authenticated uid) ?s1)" by simp
      with ke have "select_stmt courses_tbl (Authenticated uid)
          (\<lambda>c. Some (c_id c) = e_course_id ?new) ?s1 \<noteq> []"
        by (auto simp: select_stmt_def filter_empty_conv)
      moreover from award_authenticated [OF aw [unfolded Authenticated]] c Authenticated
      have "select_stmt courses_tbl (Authenticated uid)
          (\<lambda>c. Some (c_id c) = e_course_id ?new) ?s1 = []" by simp
      ultimately show ?thesis by simp
    qed
  qed
qed

lemma db_check_flag:
  "db_check (s\<lparr>enrollments := map (\<lambda>r. if P r then r\<lparr>e_is_completed := v\<rparr> else r) (enrollments s)\<rparr>) =
   db_check s"
proof -
  let ?f = "\<lambda>r. if P r then r\<lparr>e_is_completed := v\<rparr> else r"
  define t where "t = s\<lparr>enrollments := map ?f (enrollments s)\<rparr>"
  have sel: "users t = users s" "courses t = courses s" "enrollments t = map ?f (enrollments s)"
    "reviews t = reviews s" "certificates t = certificates s" "mentor_requests t = mentor_requests s"
    by (simp_all add: t_def)
  have a: "map e_id (map ?f xs) = map e_id xs" for xs by (induction xs) simp_all
  have b: "enrollment_pairs (map ?f xs) = enrollment_pairs xs" for xs
    by (induction xs) (simp_all add: enrollment_pairs_def split: option.splits)
  have c: "list_all (\<lambda>e. Q (e_student_id e) (e_course_id e)) (map ?f xs) =
      list_all (\<lambda>e. Q (e_student_id e) (e_course_id e)) xs" for xs Q
    by (induction xs) simp_all
  have u: "unique_ok t = unique_ok s"
    unfolding unique_ok_def by (simp only: sel a b)
  have f: "fk_ok t = fk_ok s"
    unfolding fk_ok_def Let_def
    by (simp only: sel
        c [of "\<lambda>x y. refers (map u_id (users s)) x \<and> refers (map c_id (courses s)) y"])
  have k: "check_ok t = check_ok s"
    unfolding check_ok_def by (simp only: sel)
  have "db_check t = db_check s" unfolding db_check_def by (simp only: u f k)
  then show ?thesis by (simp only: t_def)
qed

lemma newrow_set_xp_keys:
  "u_id (newrow set_xp_and_level u) = u_id u" "u_email (newrow set_xp_and_level u) = u_email u"
  by (auto simp: newrow_def set_xp_and_level_def split: option.splits)

lemma db_check_xp:
  "db_check (s\<lparr>users := map (\<lambda>u. if P u then newrow set_xp_and_level u else u) (users s)\<rparr>) =
   db_check s"
proof -
  let ?f = "\<lambda>u. if P u then newrow set_xp_and_level u else u"
  define t where "t = s\<lparr>users := map ?f (users s)\<rparr>"
  have sel: "users t = map ?f (users s)" "courses t = courses s" "enrollments t = enrollments s"
    "reviews t = reviews s" "certificates t = certificates s" "mentor_requests t = mentor_requests s"
    by (simp_all add: t_def)
  have a: "map u_id (map ?f xs) = map u_id xs" for xs
    by (induction xs) (simp_all add: newrow_set_xp_keys)
  have b: "map u_email (map ?f xs) = map u_email xs" for xs
    by (induction xs) (simp_all add: newrow_set_xp_keys)
  have u: "unique_ok t = unique_ok s"
    unfolding unique_ok_def by (simp only: sel a b)
  have f: "fk_ok t = fk_ok s"
    unfolding fk_ok_def Let_def by (simp only: sel a)
  have k: "check_ok t = check_ok s"
    unfolding check_ok_def by (simp only: sel)
  have "db_check t = db_check s" unfolding db_check_def by (simp only: u f k)
  then show ?thesis by (simp only: t_def)
qed

lemma update_stmt_ok:
  assumes "update_targets T p rd whr s \<noteq> []"
    and "\<forall>r\<in>set (update_targets T p rd whr s). \<exists>r'. upd r = Inr r' \<and> update_allowed T p rd s r'"
    and "db_check (tbl_put T (updated_rows T p rd whr upd s) s) = None"
  shows "update_stmt T p gen rd whr upd s =
     fire (tbl_after_update T p) gen 0
       (map (\<lambda>r. (r, newrow upd r)) (update_targets T p rd whr s))
       (tbl_put T (updated_rows T p rd whr upd s) s)"
proof -
  let ?tgt = "\<lambda>r. update_target T p rd s r \<and> whr r"
  from assms(2) have "\<forall>r\<in>set (tbl_rows T s). ?tgt r \<longrightarrow> (\<exists>r'. upd r = Inr r' \<and> update_allowed T p rd s r')"
    by (simp add: update_targets_def)
  from rls_update_ok [OF this] assms(1,3) show ?thesis
    by (simp add: update_stmt_def update_targets_def updated_rows_def)
qed

lemma update_users_owner_ok:
  assumes "db_check s = None"
    and "\<forall>u\<in>set (users s). whr u \<longrightarrow> (\<exists>u'. set_xp_and_level u = Inr u')"
  shows "update_stmt users_tbl Owner gen rd whr set_xp_and_level s =
     Inr (s\<lparr>users := map (\<lambda>u. if whr u then newrow set_xp_and_level u else u) (users s)\<rparr>)"
proof -
  have rows: "updated_rows users_tbl Owner rd whr set_xp_and_level s =
      map (\<lambda>u. if whr u then newrow set_xp_and_level u else u) (users s)"
    by (simp add: updated_rows_def update_target_def users_tbl_def)
  show ?thesis
  proof (cases "update_targets users_tbl Owner rd whr s = []")
    case True
    from updated_rows_no_targets [OF True, of set_xp_and_level] rows
    have "map (\<lambda>u. if whr u then newrow set_xp_and_level u else u) (users s) = users s"
      by (simp add: users_tbl_def)
    with update_stmt_no_targets [OF True] show ?thesis by simp
  next
    case False
    have put: "tbl_put users_tbl (updated_rows users_tbl Owner rd whr set_xp_and_level s) s =
        s\<lparr>users := map (\<lambda>u. if whr u then newrow set_xp_and_level u else u) (users s)\<rparr>"
      using rows by (simp add: users_tbl_def)
    have ok: "\<forall>r\<in>set (update_targets users_tbl Owner rd whr s).
        \<exists>r'. set_xp_and_level r = Inr r' \<and> update_allowed users_tbl Owner rd s r'"
      using assms(2) by (simp add: update_targets_def update_allowed_def users_tbl_def)
    have chk: "db_check (tbl_put users_tbl (updated_rows users_tbl Owner rd whr set_xp_and_level s) s) = None"
      unfolding put using assms(1) by (simp only: db_check_xp)
    have trg: "tbl_after_update users_tbl Owner = no_trigger Owner"
      by (simp add: users_tbl_def)
    from update_stmt_ok [OF False ok chk, of gen] show ?thesis
      unfolding trg put by (simp only: fire_no_trigger)
  qed
qed

lemma complete_enrollment_owner:
  assumes valid: "db_check s = None"
    and e: "e \<in> set (enrollments s)" and c: "e_is_completed e = Some False"
    and noovf: "\<forall>u\<in>set (users s). Some (u_id u) = e_student_id e \<longrightarrow> (\<exists>u'. set_xp_and_level u = Inr u')"
    and fresh: "db_check (completion_effect d e s) = None"
  shows "complete_enrollment Owner d (e_id e) s = Inr (completion_effect d e s)"
proof -
  let ?upd = "\<lambda>r. Inr (r\<lparr>e_is_completed := Some True\<rparr>) :: error + enrollment"
  let ?whr = "\<lambda>r. e_id r = e_id e"
  let ?new = "e\<lparr>e_is_completed := Some True\<rparr>"
  let ?s1 = "s\<lparr>enrollments := map (\<lambda>r. if e_id r = e_id e then r\<lparr>e_is_completed := Some True\<rparr> else r)
      (enrollments s)\<rparr>"
  let ?whrU = "\<lambda>u. Some (u_id u) = e_student_id e"
  let ?s2 = "?s1\<lparr>users := map (\<lambda>u. if ?whrU u then newrow set_xp_and_level u else u) (users s)\<rparr>"
  let ?certs = "map (certificate_for d ?new) (filter (\<lambda>c. Some (c_id c) = e_course_id e) (courses s))"
  from valid have dist: "distinct (map e_id (enrollments s))"
    by (auto simp: db_check_def unique_ok_def split: if_splits)
  have tgs: "update_targets enrollments_tbl Owner True ?whr s = [e]"
    using filter_by_key [OF dist e] by (simp add: update_targets_def update_target_def enrollments_tbl_def)
  have rows: "updated_rows enrollments_tbl Owner True ?whr ?upd s =
      map (\<lambda>r. if e_id r = e_id e then r\<lparr>e_is_completed := Some True\<rparr> else r) (enrollments s)"
    by (simp add: updated_rows_def update_target_def enrollments_tbl_def newrow_def)
  have put: "tbl_put enrollments_tbl (updated_rows enrollments_tbl Owner True ?whr ?upd s) s = ?s1"
    unfolding rows by (simp add: enrollments_tbl_def)
  have v1: "db_check ?s1 = None" using valid by (simp only: db_check_flag)
  have "update_stmt enrollments_tbl Owner (\<lambda>_. d) True ?whr ?upd s =
      fire (tbl_after_update enrollments_tbl Owner) (\<lambda>_. d) 0
        (map (\<lambda>r. (r, newrow ?upd r)) (update_targets enrollments_tbl Owner True ?whr s))
        (tbl_put enrollments_tbl (updated_rows enrollments_tbl Owner True ?whr ?upd s) s)"
  proof (rule update_stmt_ok)
    show "update_targets enrollments_tbl Owner True ?whr s \<noteq> []" using tgs by simp
    show "\<forall>r\<in>set (update_targets enrollments_tbl Owner True ?whr s).
        \<exists>r'. ?upd r = Inr r' \<and> update_allowed enrollments_tbl Owner True s r'"
      by (simp add: update_allowed_def)
    show "db_check (tbl_put enrollments_tbl (updated_rows enrollments_tbl Owner True ?whr ?upd s) s) = None"
      unfolding put by (rule v1)
  qed
  also have "\<dots> = award_completion_xp Owner d e ?new ?s1"
    unfolding put tgs
    by (cases "award_completion_xp Owner d e ?new ?s1")
       (simp_all add: enrollments_tbl_def newrow_def)
  also have "\<dots> = Inr (completion_effect d e s)"
  proof -
    have u: "update_stmt users_tbl Owner (\<lambda>_. d) True (\<lambda>u. Some (u_id u) = e_student_id ?new)
        set_xp_and_level ?s1 = Inr ?s2"
      using update_users_owner_ok [of ?s1 ?whrU "\<lambda>_. d"] v1 noovf by simp
    have sel: "select_stmt courses_tbl Owner (\<lambda>c. Some (c_id c) = e_course_id ?new) ?s2 =
        filter (\<lambda>c. Some (c_id c) = e_course_id e) (courses s)"
      by (simp add: select_stmt_def visible_def courses_tbl_def)
    have eff: "completion_effect d e s = ?s2\<lparr>certificates := certificates s @ ?certs\<rparr>"
      by (simp add: completion_effect_def)
    have ins: "insert_stmt certificates_tbl Owner ?certs ?s2 = Inr (completion_effect d e s)"
    proof (cases "?certs = []")
      case True
      then have "completion_effect d e s = ?s2" unfolding eff by simp
      with True show ?thesis by (simp add: insert_stmt_def)
    next
      case False
      have "list_all (insert_allowed certificates_tbl Owner ?s2) ?certs"
        by (simp add: insert_allowed_def list_all_iff)
      moreover have "tbl_put certificates_tbl (tbl_rows certificates_tbl ?s2 @ ?certs) ?s2 =
          completion_effect d e s"
        unfolding eff by (simp add: certificates_tbl_def)
      ultimately show ?thesis using False fresh by (simp add: insert_stmt_def)
    qed
    show ?thesis
      unfolding award_completion_xp_def using c u sel ins by simp
  qed
  finally show ?thesis by (simp only: complete_enrollment_def)
qed

section \<open>The completion scenario\<close>

lemma db_check_keys:
  assumes "db_check s = None"
  shows "distinct (map u_id (users s))" "distinct (map c_id (courses s))"
    "distinct (map e_id (enrollments s))"
  using assms by (auto simp: db_check_def unique_ok_def split: if_splits)

lemma award_80:
  assumes "u_xp_points u = Some 80"
  shows "set_xp_and_level u = Inr (u\<lparr>u_xp_points := Some 130, u_level_number := Some 2\<rparr>)"
  using assms by (simp add: set_xp_and_level_def int4_range_def sql_div_def)

text \<open>
  Claim C5. In a database that meets its constraints, let an enrollment \<open>e\<close> with
  \<open>is_completed = false\<close> belong to user A, who has 80 points at level 1, and name a
  course that exists. For any principal, if the completion update of \<open>e\<close> commits and
  changes the database at all, the database it leaves is \<open>completion_effect\<close>: the flag
  of \<open>e\<close> is true, A's row has 130 points and level 2 while every other user row is
  unchanged, and \<open>certificates\<close> has grown by exactly one row, whose \<open>student_id\<close> is A and
  whose \<open>mentor_id\<close> is the course's. Run by the owner of the tables, the update does
  commit with that result whenever the certificate drawn collides with none that exists.
\<close>

theorem completion_scenario:
  assumes valid: "db_check s = None"
    and e: "e \<in> set (enrollments s)" "e_is_completed e = Some False"
      "e_student_id e = Some a" "e_course_id e = Some cid"
    and u: "u \<in> set (users s)" "u_id u = a" "u_xp_points u = Some 80" "u_level_number u = Some 1"
    and k: "k \<in> set (courses s)" "c_id k = cid"
  shows "(complete_enrollment p d (e_id e) s = Inr s' \<longrightarrow> s' = s \<or> s' = completion_effect d e s) \<and>
         (db_check (completion_effect d e s) = None \<longrightarrow>
            complete_enrollment Owner d (e_id e) s = Inr (completion_effect d e s)) \<and>
         e\<lparr>e_is_completed := Some True\<rparr> \<in> set (enrollments (completion_effect d e s)) \<and>
         users (completion_effect d e s) =
           map (\<lambda>v. if u_id v = a then v\<lparr>u_xp_points := Some 130, u_level_number := Some 2\<rparr> else v)
             (users s) \<and>
         certificates (completion_effect d e s) =
           certificates s @
             [\<lparr>cert_id = fst d, cert_student_id = Some a, cert_course_id = Some cid,
               cert_mentor_id = c_mentor_id k, cert_certificate_id = certificate_number (snd d)\<rparr>]"
proof (intro conjI impI)
  note keys = db_check_keys [OF valid]
  have only_u: "v = u" if "v \<in> set (users s)" "u_id v = a" for v
    using distinct_key_eq [OF keys(1) that(1) u(1)] that(2) u(2) by simp
  show "s' = s \<or> s' = completion_effect d e s" if "complete_enrollment p d (e_id e) s = Inr s'"
    using complete_enrollment_outcome [OF keys(3) e(1,2) that] by blast
  show "complete_enrollment Owner d (e_id e) s = Inr (completion_effect d e s)"
    if "db_check (completion_effect d e s) = None"
  proof (rule complete_enrollment_owner [OF valid e(1,2) _ that], intro ballI impI)
    fix v assume "v \<in> set (users s)" "Some (u_id v) = e_student_id e"
    with e(3) only_u have "v = u" by simp
    with award_80 [OF u(3)] show "\<exists>u'. set_xp_and_level v = Inr u'" by simp
  qed
  show "e\<lparr>e_is_completed := Some True\<rparr> \<in> set (enrollments (completion_effect d e s))"
    using e(1) by (force simp: completion_effect_def)
  show "users (completion_effect d e s) =
      map (\<lambda>v. if u_id v = a then v\<lparr>u_xp_points := Some 130, u_level_number := Some 2\<rparr> else v) (users s)"
  proof -
    have "(if Some (u_id v) = e_student_id e then newrow set_xp_and_level v else v) =
        (if u_id v = a then v\<lparr>u_xp_points := Some 130, u_level_number := Some 2\<rparr> else v)"
      if "v \<in> set (users s)" for v
    proof (cases "u_id v = a")
      case True
      with that only_u have "v = u" by simp
      with True e(3) u(2) award_80 [OF u(3)] show ?thesis by (simp add: newrow_def)
    next
      case False
      with e(3) show ?thesis by simp
    qed
    then have "map (\<lambda>v. if Some (u_id v) = e_student_id e then newrow set_xp_and_level v else v) (users s) =
        map (\<lambda>v. if u_id v = a then v\<lparr>u_xp_points := Some 130, u_level_number := Some 2\<rparr> else v) (users s)"
      by (rule map_cong [OF refl])
    then show ?thesis by (simp add: completion_effect_def)
  qed
  show "certificates (completion_effect d e s) =
      certificates s @
        [\<lparr>cert_id = fst d, cert_student_id = Some a, cert_course_id = Some cid,
          cert_mentor_id = c_mentor_id k, cert_certificate_id = certificate_number (snd d)\<rparr>]"
  proof -
    have "filter (\<lambda>c. c_id c = c_id k) (courses s) = [k]"
      by (rule filter_by_key [OF keys(2) k(1)])
    then have "filter (\<lambda>c. Some (c_id c) = e_course_id e) (courses s) = [k]"
      using e(4) k(2) by simp
    then show ?thesis
      using e(3,4) by (simp add: completion_effect_def certificate_for_def)
  qed
qed

theorem completion_scenario_witness:
  "complete_enrollment Owner ex_draw 100 ex_db = Inr (completion_effect ex_draw enr_alice ex_db) \<and>
   completion_effect ex_draw enr_alice ex_db \<noteq> ex_db \<and>
   enr_alice\<lparr>e_is_completed := Some True\<rparr> \<in> set (enrollments (completion_effect ex_draw enr_alice ex_db)) \<and>
   users (completion_effect ex_draw enr_alice ex_db) =
     [alice\<lparr>u_xp_points := Some 130, u_level_number := Some 2\<rparr>, mona, bob] \<and>
   certificates (completion_effect ex_draw enr_alice ex_db) = [cert_alice]"
proof -
  have h: "db_check ex_db = None" "enr_alice \<in> set (enrollments ex_db)"
    "e_is_completed enr_alice = Some False" "e_student_id enr_alice = Some 1"
    "e_course_id enr_alice = Some 10" "alice \<in> set (users ex_db)" "u_id alice = 1"
    "u_xp_points alice = Some 80" "u_level_number alice = Some 1"
    "course10 \<in> set (courses ex_db)" "c_id course10 = 10"
    by code_simp+
  have f: "db_check (completion_effect ex_draw enr_alice ex_db) = None" by code_simp
  have i: "e_id enr_alice = 100" by code_simp
  have n: "completion_effect ex_draw enr_alice ex_db \<noteq> ex_db" by code_simp
  have m: "map (\<lambda>v. if u_id v = 1 then v\<lparr>u_xp_points := Some 130, u_level_number := Some 2\<rparr> else v)
      (users ex_db) = [alice\<lparr>u_xp_points := Some 130, u_level_number := Some 2\<rparr>, mona, bob]"
    by code_simp
  have c: "certificates ex_db @
             [\<lparr>cert_id = fst ex_draw, cert_student_id = Some 1, cert_course_id = Some 10,
               cert_mentor_id = c_mentor_id course10,
               cert_certificate_id = certificate_number (snd ex_draw)\<rparr>] = [cert_alice]"
    by code_simp
  from completion_scenario [OF h, of Owner ex_draw "completion_effect ex_draw enr_alice ex_db"] f i n m c
  show ?thesis by simp
qed

section \<open>Failure of a completion step\<close>

lemma completion_effect_no_course:
  assumes "filter (\<lambda>c. Some (c_id c) = e_course_id e) (courses s) = []"
  shows "db_check (completion_effect d e s) = db_check s"
proof -
  let ?s1 = "s\<lparr>enrollments := map (\<lambda>r. if e_id r = e_id e then r\<lparr>e_is_completed := Some True\<rparr> else r)
      (enrollments s)\<rparr>"
  let ?f = "\<lambda>u. if Some (u_id u) = e_student_id e then newrow set_xp_and_level u else u"
  from assms have "completion_effect d e s = ?s1\<lparr>users := map ?f (users ?s1)\<rparr>"
    by (simp add: completion_effect_def)
  then have "db_check (completion_effect d e s) = db_check ?s1"
    by (simp only: db_check_xp)
  then show ?thesis by (simp only: db_check_flag)
qed

lemma no_course_is_null:
  assumes "db_check s = None" and "e \<in> set (enrollments s)"
    and "filter (\<lambda>c. Some (c_id c) = e_course_id e) (courses s) = []"
  shows "e_course_id e = None"
proof (cases "e_course_id e")
  case None
  then show ?thesis .
next
  case (Some k)
  from assms(1) have "fk_ok s" by (auto simp: db_check_def split: if_splits)
  with assms(2) have "refers (map c_id (courses s)) (e_course_id e)"
    by (auto simp: fk_ok_def Let_def list_all_iff)
  with Some obtain c where "c \<in> set (courses s)" "c_id c = k" by (auto simp: refers_def)
  with Some assms(3) show ?thesis by (auto simp: filter_empty_conv)
qed

text \<open>
  Claim C2, as amended. The completion update of an open enrollment is all or nothing:
  either the database after the request is the database before it (the update selected
  no row it may touch, or some step raised: a policy check, a constraint, the
  arithmetic on \<open>xp_points\<close>, the certificate insert), or the request was run by the
  owner of the tables and the flag flip, the update of the student's row and the
  certificate insert have all been committed together. A missing course is not a
  failure of any step. In a database that meets its constraints, when no \<open>courses\<close> row
  has the enrollment's \<open>course_id\<close> (which the foreign key allows only when it is \<open>NULL\<close>)
  and adding 50 to the student's \<open>xp_points\<close> stays within \<open>integer\<close>, the update run by
  the owner commits: the flag is set, the student's row is updated and \<open>certificates\<close>
  is unchanged.
\<close>

theorem completion_is_all_or_nothing:
  assumes "distinct (map e_id (enrollments s))"
    and "e \<in> set (enrollments s)" and "e_is_completed e = Some False"
  shows "(after s (complete_enrollment p d (e_id e) s) = s \<or>
          p = Owner \<and> complete_enrollment p d (e_id e) s = Inr (completion_effect d e s)) \<and>
         (db_check s = None \<and>
          filter (\<lambda>c. Some (c_id c) = e_course_id e) (courses s) = [] \<and>
          (\<forall>u\<in>set (users s). Some (u_id u) = e_student_id e \<longrightarrow>
              (\<forall>x. u_xp_points u = Some x \<longrightarrow> int4_range (x + 50))) \<longrightarrow>
            e_course_id e = None \<and>
            complete_enrollment Owner d (e_id e) s = Inr (completion_effect d e s) \<and>
            enrollments (completion_effect d e s) =
              map (\<lambda>r. if e_id r = e_id e then r\<lparr>e_is_completed := Some True\<rparr> else r)
                (enrollments s) \<and>
            users (completion_effect d e s) =
              map (\<lambda>u. if Some (u_id u) = e_student_id e then newrow set_xp_and_level u else u)
                (users s) \<and>
            certificates (completion_effect d e s) = certificates s)"
proof (intro conjI impI)
  show "after s (complete_enrollment p d (e_id e) s) = s \<or>
      p = Owner \<and> complete_enrollment p d (e_id e) s = Inr (completion_effect d e s)"
  proof (cases "complete_enrollment p d (e_id e) s")
    case (Inl err)
    then show ?thesis by (simp add: after_def)
  next
    case (Inr s')
    from complete_enrollment_outcome [OF assms Inr] Inr show ?thesis
      by (auto simp: after_def)
  qed
next
  assume h: "db_check s = None \<and>
    filter (\<lambda>c. Some (c_id c) = e_course_id e) (courses s) = [] \<and>
    (\<forall>u\<in>set (users s). Some (u_id u) = e_student_id e \<longrightarrow>
        (\<forall>x. u_xp_points u = Some x \<longrightarrow> int4_range (x + 50)))"
  then have valid: "db_check s = None"
    and none: "filter (\<lambda>c. Some (c_id c) = e_course_id e) (courses s) = []"
    and rng: "\<forall>u\<in>set (users s). Some (u_id u) = e_student_id e \<longrightarrow>
        (\<forall>x. u_xp_points u = Some x \<longrightarrow> int4_range (x + 50))"
    by simp_all
  have noovf: "\<forall>u\<in>set (users s). Some (u_id u) = e_student_id e \<longrightarrow>
      (\<exists>u'. set_xp_and_level u = Inr u')"
  proof (intro ballI impI)
    fix u assume "u \<in> set (users s)" "Some (u_id u) = e_student_id e"
    with rng have "\<forall>x. u_xp_points u = Some x \<longrightarrow> int4_range (x + 50)" by blast
    then show "\<exists>u'. set_xp_and_level u = Inr u'"
      by (cases "u_xp_points u") (simp_all add: set_xp_and_level_def)
  qed
  have fresh: "db_check (completion_effect d e s) = None"
    using completion_effect_no_course [OF none] valid by simp
  show "e_course_id e = None"
    by (rule no_course_is_null [OF valid assms(2) none])
  show "complete_enrollment Owner d (e_id e) s = Inr (completion_effect d e s)"
    by (rule complete_enrollment_owner [OF valid assms(2,3) noovf fresh])
  show "certificates (completion_effect d e s) = certificates s"
    using none by (simp add: completion_effect_def)
next
  show "enrollments (completion_effect d e s) =
      map (\<lambda>r. if e_id r = e_id e then r\<lparr>e_is_completed := Some True\<rparr> else r) (enrollments s)"
    by (simp add: completion_effect_def)
  show "users (completion_effect d e s) =
      map (\<lambda>u. if Some (u_id u) = e_student_id e then newrow set_xp_and_level u else u) (users s)"
    by (simp add: completion_effect_def)
qed

theorem completion_is_all_or_nothing_witness:
  "after ex_db (complete_enrollment (Authenticated 2) ex_draw 100 ex_db) = ex_db \<and>
   complete_enrollment (Authenticated 2) ex_draw 100 ex_db = Inl PermissionDenied \<and>
   e_course_id enr_no_course = None \<and>
   complete_enrollment Owner ex_draw 102 ex_db_no_course =
     Inr (completion_effect ex_draw enr_no_course ex_db_no_course) \<and>
   enrollments (completion_effect ex_draw enr_no_course ex_db_no_course) =
     [enr_alice, enr_bob, enr_no_course\<lparr>e_is_completed := Some True\<rparr>] \<and>
   users (completion_effect ex_draw enr_no_course ex_db_no_course) =
     [alice\<lparr>u_xp_points := Some 130, u_level_number := Some 2\<rparr>, mona, bob] \<and>
   certificates (completion_effect ex_draw enr_no_course ex_db_no_course) =
     certificates ex_db_no_course"
proof -
  have a: "distinct (map e_id (enrollments ex_db))" "enr_alice \<in> set (enrollments ex_db)"
    "e_is_completed enr_alice = Some False"
    by code_simp+
  have b: "distinct (map e_id (enrollments ex_db_no_course))"
    "enr_no_course \<in> set (enrollments ex_db_no_course)"
    "e_is_completed enr_no_course = Some False"
    by code_simp+
  have i: "e_id enr_alice = 100" "e_id enr_no_course = 102" by code_simp+
  have d: "complete_enrollment (Authenticated 2) ex_draw 100 ex_db = Inl PermissionDenied"
    by code_simp
  have v: "db_check ex_db_no_course = None" by code_simp
  have f: "filter (\<lambda>c. Some (c_id c) = e_course_id enr_no_course) (courses ex_db_no_course) = []"
    by code_simp
  have r: "\<forall>u\<in>set (users ex_db_no_course). Some (u_id u) = e_student_id enr_no_course \<longrightarrow>
      (\<forall>x. u_xp_points u = Some x \<longrightarrow> int4_range (x + 50))"
    by (simp add: ex_db_no_course_def ex_db_def enr_no_course_def alice_def mona_def bob_def
        int4_range_def)
  have n: "map (\<lambda>r. if e_id r = 102 then r\<lparr>e_is_completed := Some True\<rparr> else r)
      (enrollments ex_db_no_course) =
      [enr_alice, enr_bob, enr_no_course\<lparr>e_is_completed := Some True\<rparr>]"
    by code_simp
  have m: "map (\<lambda>u. if Some (u_id u) = e_student_id enr_no_course
                     then newrow set_xp_and_level u else u) (users ex_db_no_course) =
      [alice\<lparr>u_xp_points := Some 130, u_level_number := Some 2\<rparr>, mona, bob]"
    by code_simp
  from completion_is_all_or_nothing [OF a, of "Authenticated 2" ex_draw] d
  have one: "after ex_db (complete_enrollment (Authenticated 2) ex_draw 100 ex_db) = ex_db"
    unfolding i by simp
  from completion_is_all_or_nothing [OF b, of Owner ex_draw, THEN conjunct2] v f r
  have two: "e_course_id enr_no_course = None \<and>
     complete_enrollment Owner ex_draw 102 ex_db_no_course =
       Inr (completion_effect ex_draw enr_no_course ex_db_no_course) \<and>
     enrollments (completion_effect ex_draw enr_no_course ex_db_no_course) =
       [enr_alice, enr_bob, enr_no_course\<lparr>e_is_completed := Some True\<rparr>] \<and>
     users (completion_effect ex_draw enr_no_course ex_db_no_course) =
       [alice\<lparr>u_xp_points := Some 130, u_level_number := Some 2\<rparr>, mona, bob] \<and>
     certificates (completion_effect ex_draw enr_no_course ex_db_no_course) =
       certificates ex_db_no_course"
    unfolding i n m by blast
  from one d two show ?thesis by blast
qed

text \<open>
  Claim C2 as it is written fails where no course row matches. Alice has an enrollment
  whose \<open>course_id\<close> is \<open>NULL\<close>, in a database that meets every constraint; its completion
  update, run by the owner, commits with Alice at 130 points and no certificate.
\<close>

theorem xp_awarded_without_certificate:
  "db_check ex_db_no_course = None \<and>
   e_course_id enr_no_course = None \<and>
   complete_enrollment Owner ex_draw 102 ex_db_no_course =
     Inr (ex_db_no_course
          \<lparr>users := [alice\<lparr>u_xp_points := Some 130, u_level_number := Some 2\<rparr>, mona, bob],
            enrollments := [enr_alice, enr_bob, enr_no_course\<lparr>e_is_completed := Some True\<rparr>],
            certificates := []\<rparr>)"
  by code_simp

section \<open>Completion through the guarded interface\<close>

text \<open>
  The completion update of an open enrollment, issued by an authenticated principal,
  never takes effect. Either the update policy on \<open>enrollments\<close> hides the row from the
  principal and the statement succeeds on zero rows, or the row is updated and the
  trigger fires for the same principal: its insert into \<open>certificates\<close>, a table with no
  insert policy, raises, and the statement is rolled back.
\<close>

theorem authenticated_completion_never_commits:
  assumes "distinct (map e_id (enrollments s))"
    and "e \<in> set (enrollments s)" and "e_is_completed e = Some False"
  shows "after s (complete_enrollment (Authenticated uid) d (e_id e) s) = s"
proof (cases "complete_enrollment (Authenticated uid) d (e_id e) s")
  case (Inl err)
  then show ?thesis by (simp add: after_def)
next
  case (Inr s')
  from complete_enrollment_outcome [OF assms Inr] have "s' = s" by simp
  with Inr show ?thesis by (simp add: after_def)
qed

theorem authenticated_completion_never_commits_witness:
  "complete_enrollment (Authenticated 2) ex_draw 100 ex_db = Inl PermissionDenied \<and>
   after ex_db (complete_enrollment (Authenticated 2) ex_draw 100 ex_db) = ex_db \<and>
   complete_enrollment (Authenticated 1) ex_draw 100 ex_db = Inr ex_db"
proof -
  have a: "distinct (map e_id (enrollments ex_db))" "enr_alice \<in> set (enrollments ex_db)"
    "e_is_completed enr_alice = Some False"
    by code_simp+
  have i: "e_id enr_alice = 100" by code_simp
  have d: "complete_enrollment (Authenticated 2) ex_draw 100 ex_db = Inl PermissionDenied"
    "complete_enrollment (Authenticated 1) ex_draw 100 ex_db = Inr ex_db"
    by code_simp+
  from authenticated_completion_never_commits [OF a, of 2 ex_draw] i d show ?thesis by simp
qed

section \<open>Completions in a serial order\<close>

text \<open>
  Once the enrollment is completed, further completion updates of it, by whatever
  principals and with whatever draws, leave the database as it is, however many they
  are. So of the completion updates of one enrollment run in any serial order, only
  the first to commit awards experience and issues a certificate.
\<close>

theorem later_completions_change_nothing:
  assumes "\<forall>e\<in>set (enrollments s). e_id e = eid \<longrightarrow> e_is_completed e = Some True"
  shows "complete_repeatedly reqs eid s = s"
proof (induction reqs)
  case Nil
  show ?case by (simp add: complete_repeatedly_def)
next
  case (Cons r reqs)
  obtain p d where r: "r = (p, d)" by (cases r)
  from complete_again_noop [OF assms, of p d] Cons.IH r show ?case
    by (simp add: complete_repeatedly_def)
qed

theorem later_completions_change_nothing_witness:
  "complete_enrollment Owner ex_draw 100 ex_db = Inr (completion_effect ex_draw enr_alice ex_db) \<and>
   complete_repeatedly [(Owner, (501, ''9d8c7b6a'')), (Authenticated 2, (502, ''01234567''))] 100
     (completion_effect ex_draw enr_alice ex_db) = completion_effect ex_draw enr_alice ex_db \<and>
   certificates (completion_effect ex_draw enr_alice ex_db) = [cert_alice]"
proof -
  have h: "\<forall>e\<in>set (enrollments (completion_effect ex_draw enr_alice ex_db)).
      e_id e = 100 \<longrightarrow> e_is_completed e = Some True"
    by code_simp
  have f: "complete_enrollment Owner ex_draw 100 ex_db = Inr (completion_effect ex_draw enr_alice ex_db)"
    "certificates (completion_effect ex_draw enr_alice ex_db) = [cert_alice]"
    by code_simp+
  from later_completions_change_nothing [OF h,
      of "[(Owner, (501, ''9d8c7b6a'')), (Authenticated 2, (502, ''01234567''))]"] f
  show ?thesis by simp
qed

lemma complete_repeatedly_done:
  assumes "\<forall>e\<in>set (enrollments s). e_id e = eid \<longrightarrow> e_is_completed e = Some True"
  shows "complete_repeatedly reqs eid s = s"
proof (induction reqs)
  case Nil
  show ?case by (simp add: complete_repeatedly_def)
next
  case (Cons r reqs)
  obtain p d where r: "r = (p, d)" by (cases r)
  from complete_again_noop [OF assms, of p d] Cons.IH r show ?case
    by (simp add: complete_repeatedly_def)
qed

lemma completion_effect_done:
  "\<forall>r\<in>set (enrollments (completion_effect d e s)). e_id r = e_id e \<longrightarrow>
      e_is_completed r = Some True"
  by (auto simp: completion_effect_def)

lemma complete_repeatedly_Cons:
  "complete_repeatedly ((p, d) # reqs) eid s =
     complete_repeatedly reqs eid (after s (complete_enrollment p d eid s))"
  by (simp add: complete_repeatedly_def)

lemma complete_repeatedly_append:
  "complete_repeatedly (pre @ reqs) eid s =
     complete_repeatedly reqs eid (complete_repeatedly pre eid s)"
  by (simp add: complete_repeatedly_def)

lemma complete_repeatedly_committed:
  assumes "complete_repeatedly pre (e_id e) s = s"
    and "complete_enrollment p d (e_id e) s = Inr (completion_effect d e s)"
  shows "complete_repeatedly (pre @ (p, d) # post) (e_id e) s = completion_effect d e s"
  using assms complete_repeatedly_done [OF completion_effect_done]
  by (simp add: complete_repeatedly_append complete_repeatedly_Cons after_def)

lemma complete_repeatedly_cases:
  assumes "distinct (map e_id (enrollments s))"
    and "e \<in> set (enrollments s)" and "e_is_completed e = Some False"
  shows "complete_repeatedly reqs (e_id e) s = s \<or>
     (\<exists>before q c later. reqs = before @ (q, c) # later \<and>
         complete_repeatedly before (e_id e) s = s \<and>
         complete_enrollment q c (e_id e) s = Inr (completion_effect c e s) \<and>
         complete_repeatedly reqs (e_id e) s = completion_effect c e s)"
proof (induction reqs)
  case Nil
  show ?case by (simp add: complete_repeatedly_def)
next
  case (Cons r reqs)
  obtain p d where r: "r = (p, d)" by (cases r)
  have "after s (complete_enrollment p d (e_id e) s) = s \<or>
      complete_enrollment p d (e_id e) s = Inr (completion_effect d e s)"
  proof (cases "complete_enrollment p d (e_id e) s")
    case (Inl err)
    then show ?thesis by (simp add: after_def)
  next
    case (Inr s')
    from complete_enrollment_outcome [OF assms Inr] Inr show ?thesis
      by (auto simp: after_def)
  qed
  then show ?case
  proof
    assume same: "after s (complete_enrollment p d (e_id e) s) = s"
    then have step: "complete_repeatedly (r # reqs) (e_id e) s = complete_repeatedly reqs (e_id e) s"
      by (simp add: r complete_repeatedly_Cons)
    from Cons.IH show ?thesis
    proof
      assume "complete_repeatedly reqs (e_id e) s = s"
      with step show ?thesis by simp
    next
      assume "\<exists>before q c later. reqs = before @ (q, c) # later \<and>
         complete_repeatedly before (e_id e) s = s \<and>
         complete_enrollment q c (e_id e) s = Inr (completion_effect c e s) \<and>
         complete_repeatedly reqs (e_id e) s = completion_effect c e s"
      then obtain before q c later where h: "reqs = before @ (q, c) # later"
        "complete_repeatedly before (e_id e) s = s"
        "complete_enrollment q c (e_id e) s = Inr (completion_effect c e s)"
        "complete_repeatedly reqs (e_id e) s = completion_effect c e s"
        by blast
      from h(1) r have "r # reqs = (r # before) @ (q, c) # later" by simp
      moreover from h(2) same have "complete_repeatedly (r # before) (e_id e) s = s"
        by (simp add: r complete_repeatedly_Cons)
      moreover from h(4) step have "complete_repeatedly (r # reqs) (e_id e) s = completion_effect c e s"
        by simp
      ultimately show ?thesis using h(3) by blast
    qed
  next
    assume eff: "complete_enrollment p d (e_id e) s = Inr (completion_effect d e s)"
    have "complete_repeatedly [] (e_id e) s = s" by (simp add: complete_repeatedly_def)
    from complete_repeatedly_committed [OF this eff, of reqs]
    have "complete_repeatedly (r # reqs) (e_id e) s = completion_effect d e s"
      by (simp add: r)
    moreover have "r # reqs = [] @ (p, d) # reqs" by (simp add: r)
    moreover have "complete_repeatedly [] (e_id e) s = s" by (simp add: complete_repeatedly_def)
    ultimately show ?thesis using eff by blast
  qed
qed

text \<open>
  Claim C4, as amended. Let completion updates of one open enrollment run one after the
  other, in any number and by any principals. At most one of them takes effect. Either
  none does, and the database is left as it was: each request was skipped by the update
  policy or raised and was rolled back. Or exactly one does: the requests before it
  changed nothing, it committed the whole completion, and the requests after it change
  nothing, so that the result is the database after one completion, with 50 added once
  to the student's \<open>xp_points\<close> and one certificate for the course of the enrollment.
\<close>

theorem completion_awards_at_most_once:
  assumes "distinct (map e_id (enrollments s))"
    and "e \<in> set (enrollments s)" and "e_is_completed e = Some False"
  shows "(complete_repeatedly reqs (e_id e) s = s \<or>
          (\<exists>before q c later. reqs = before @ (q, c) # later \<and>
              complete_repeatedly before (e_id e) s = s \<and>
              complete_enrollment q c (e_id e) s = Inr (completion_effect c e s) \<and>
              complete_repeatedly reqs (e_id e) s = completion_effect c e s)) \<and>
         (complete_repeatedly pre (e_id e) s = s \<and>
          complete_enrollment p d (e_id e) s = Inr (completion_effect d e s) \<longrightarrow>
            complete_repeatedly (pre @ (p, d) # post) (e_id e) s = completion_effect d e s) \<and>
         users (completion_effect d e s) =
           map (\<lambda>u. if Some (u_id u) = e_student_id e then newrow set_xp_and_level u else u)
             (users s) \<and>
         (u_xp_points u = Some x \<and> int4_range (x + 50) \<longrightarrow>
            u_xp_points (newrow set_xp_and_level u) = Some (x + 50)) \<and>
         (distinct (map c_id (courses s)) \<and> k \<in> set (courses s) \<and>
          Some (c_id k) = e_course_id e \<longrightarrow>
            certificates (completion_effect d e s) =
              certificates s @ [certificate_for d (e\<lparr>e_is_completed := Some True\<rparr>) k])"
proof (intro conjI impI)
  show "complete_repeatedly reqs (e_id e) s = s \<or>
     (\<exists>before q c later. reqs = before @ (q, c) # later \<and>
         complete_repeatedly before (e_id e) s = s \<and>
         complete_enrollment q c (e_id e) s = Inr (completion_effect c e s) \<and>
         complete_repeatedly reqs (e_id e) s = completion_effect c e s)"
    by (rule complete_repeatedly_cases [OF assms])
next
  assume "complete_repeatedly pre (e_id e) s = s \<and>
    complete_enrollment p d (e_id e) s = Inr (completion_effect d e s)"
  then show "complete_repeatedly (pre @ (p, d) # post) (e_id e) s = completion_effect d e s"
    using complete_repeatedly_committed by blast
next
  show "users (completion_effect d e s) =
      map (\<lambda>u. if Some (u_id u) = e_student_id e then newrow set_xp_and_level u else u) (users s)"
    by (simp add: completion_effect_def)
next
  assume "u_xp_points u = Some x \<and> int4_range (x + 50)"
  then show "u_xp_points (newrow set_xp_and_level u) = Some (x + 50)"
    by (simp add: newrow_def set_xp_and_level_def)
next
  assume h: "distinct (map c_id (courses s)) \<and> k \<in> set (courses s) \<and>
    Some (c_id k) = e_course_id e"
  then have "distinct (map c_id (courses s))" and "k \<in> set (courses s)"
    and ke: "e_course_id e = Some (c_id k)"
    by simp_all
  then have "filter (\<lambda>c. c_id c = c_id k) (courses s) = [k]"
    by (intro filter_by_key)
  with ke show "certificates (completion_effect d e s) =
      certificates s @ [certificate_for d (e\<lparr>e_is_completed := Some True\<rparr>) k]"
    by (simp add: completion_effect_def)
qed

theorem completion_awards_at_most_once_witness:
  "complete_repeatedly [(Authenticated 1, (501, ''9d8c7b6a''))] 100 ex_db = ex_db \<and>
   complete_enrollment Owner ex_draw 100 ex_db = Inr (completion_effect ex_draw enr_alice ex_db) \<and>
   complete_repeatedly
     [(Authenticated 1, (501, ''9d8c7b6a'')), (Owner, ex_draw),
      (Authenticated 2, (502, ''01234567'')), (Owner, (503, ''89abcdef''))] 100 ex_db =
     completion_effect ex_draw enr_alice ex_db \<and>
   users (completion_effect ex_draw enr_alice ex_db) =
     [alice\<lparr>u_xp_points := Some 130, u_level_number := Some 2\<rparr>, mona, bob] \<and>
   u_xp_points (newrow set_xp_and_level alice) = Some 130 \<and>
   certificates (completion_effect ex_draw enr_alice ex_db) = [cert_alice]"
proof -
  have a: "distinct (map e_id (enrollments ex_db))" "enr_alice \<in> set (enrollments ex_db)"
    "e_is_completed enr_alice = Some False"
    by code_simp+
  have i: "e_id enr_alice = 100" by code_simp
  have b: "complete_repeatedly [(Authenticated 1, (501, ''9d8c7b6a''))] 100 ex_db = ex_db"
    by code_simp
  have c: "complete_enrollment Owner ex_draw 100 ex_db =
      Inr (completion_effect ex_draw enr_alice ex_db)"
    by code_simp
  have m: "map (\<lambda>u. if Some (u_id u) = e_student_id enr_alice
                     then newrow set_xp_and_level u else u) (users ex_db) =
      [alice\<lparr>u_xp_points := Some 130, u_level_number := Some 2\<rparr>, mona, bob]"
    by code_simp
  have x: "u_xp_points alice = Some 80 \<and> int4_range (80 + 50)" by code_simp
  have k: "distinct (map c_id (courses ex_db)) \<and> course10 \<in> set (courses ex_db) \<and>
      Some (c_id course10) = e_course_id enr_alice"
    by code_simp
  have n: "certificates ex_db @
      [certificate_for ex_draw (enr_alice\<lparr>e_is_completed := Some True\<rparr>) course10] = [cert_alice]"
    by code_simp
  note T = completion_awards_at_most_once [OF a, where d = ex_draw and p = Owner
      and pre = "[(Authenticated 1, (501, ''9d8c7b6a''))]"
      and post = "[(Authenticated 2, (502, ''01234567'')), (Owner, (503, ''89abcdef''))]"
      and u = alice and x = 80 and k = course10, unfolded i, THEN conjunct2]
  from T [THEN conjunct1, THEN mp, OF conjI [OF b c]]
  have r1: "complete_repeatedly
     [(Authenticated 1, (501, ''9d8c7b6a'')), (Owner, ex_draw),
      (Authenticated 2, (502, ''01234567'')), (Owner, (503, ''89abcdef''))] 100 ex_db =
     completion_effect ex_draw enr_alice ex_db"
    by simp
  from T [THEN conjunct2, THEN conjunct1] m
  have r2: "users (completion_effect ex_draw enr_alice ex_db) =
     [alice\<lparr>u_xp_points := Some 130, u_level_number := Some 2\<rparr>, mona, bob]"
    by simp
  from T [THEN conjunct2, THEN conjunct2, THEN conjunct1, THEN mp, OF x]
  have r3: "u_xp_points (newrow set_xp_and_level alice) = Some 130" by simp
  from T [THEN conjunct2, THEN conjunct2, THEN conjunct2, THEN mp, OF k] n
  have r4: "certificates (completion_effect ex_draw enr_alice ex_db) = [cert_alice]" by simp
  from b c r1 r2 r3 r4 show ?thesis by blast
qed

text \<open>
  Claim C4 as it is written fails already for one request. Alice's enrollment is open.
  One completion update issued by Alice herself, whom the update policy on \<open>enrollments\<close>
  does not admit, succeeds on zero rows; one issued by Mona, the mentor of the course,
  raises in the trigger and is rolled back. After either, nothing has been awarded: the
  database is as it was, with Alice at 80 points and no certificate.
\<close>

theorem one_request_awards_nothing:
  "enr_alice \<in> set (enrollments ex_db) \<and> e_is_completed enr_alice = Some False \<and>
   complete_enrollment (Authenticated 1) ex_draw 100 ex_db = Inr ex_db \<and>
   complete_repeatedly [(Authenticated 1, ex_draw)] 100 ex_db = ex_db \<and>
   complete_enrollment (Authenticated 2) ex_draw 100 ex_db = Inl PermissionDenied \<and>
   complete_repeatedly [(Authenticated 2, ex_draw)] 100 ex_db = ex_db \<and>
   u_xp_points alice = Some 80 \<and> certificates ex_db = []"
  by code_simp

end
